theory Spec2Isabelle
  imports Main "HOL-Library.Sublist"
begin

section \<open>Text\<close>

text \<open>
  Python strings are modelled as \<open>string\<close>: a list of 8-bit characters, one per code
  point, so the model covers text whose code points are below 256. The identifiers the
  patterns of the source can capture from such text are ASCII letters, digits and
  underscores. \<open>lower\<close> maps the ASCII letters and leaves every other character as it
  is: its result is only searched for ASCII text, and no other character of the range
  lower-cases to an ASCII one. \<open>title\<close> follows Python on the whole range but for the
  two letters whose title case lies beyond it (code points 181 and 255), which are left
  as they are.
\<close>

definition is_upper :: "char \<Rightarrow> bool" where
  "is_upper c = (65 \<le> (of_char c :: nat) \<and> (of_char c :: nat) \<le> 90)"

definition is_lower :: "char \<Rightarrow> bool" where
  "is_lower c = (97 \<le> (of_char c :: nat) \<and> (of_char c :: nat) \<le> 122)"

definition is_digit :: "char \<Rightarrow> bool" where
  "is_digit c = (48 \<le> (of_char c :: nat) \<and> (of_char c :: nat) \<le> 57)"

definition lower_char :: "char \<Rightarrow> char" where
  "lower_char c = (if is_upper c then char_of ((of_char c :: nat) + 32) else c)"

text \<open>\<^verbatim>\<open>s.lower()\<close>\<close>

definition lower :: "string \<Rightarrow> string" where
  "lower s = map lower_char s"

text \<open>\<^verbatim>\<open>s.startswith(p)\<close>\<close>

definition startswith :: "string \<Rightarrow> string \<Rightarrow> bool" where
  "startswith s p = (take (length p) s = p)"

text \<open>\<^verbatim>\<open>sub in s\<close> on strings: \<open>sub\<close> occurs in \<open>s\<close> at some position.\<close>

fun contains :: "string \<Rightarrow> string \<Rightarrow> bool" where
  "contains sub [] = (sub = [])"
| "contains sub (c # cs) = (startswith (c # cs) sub \<or> contains sub cs)"

text \<open>\<^verbatim>\<open>s.replace(a, b)\<close> for single characters.\<close>

definition replace_char :: "char \<Rightarrow> char \<Rightarrow> string \<Rightarrow> string" where
  "replace_char a b s = map (\<lambda>c. if c = a then b else c) s"

text \<open>
  \<^verbatim>\<open>s.title()\<close>: a character that follows a cased character is lower-cased, any other
  is title-cased; the flag is whether the previous character was cased. The cased
  characters of the range are the ASCII letters, the code points 170, 181 and 186, and
  192 to 255 but for 215 and 247. The title case of code point 223 is \<^verbatim>\<open>Ss\<close>.
\<close>

definition is_cased :: "char \<Rightarrow> bool" where
  "is_cased c =
     (let n = (of_char c :: nat)
      in (65 \<le> n \<and> n \<le> 90) \<or> (97 \<le> n \<and> n \<le> 122) \<or> n = 170 \<or> n = 181 \<or> n = 186
         \<or> (192 \<le> n \<and> n \<le> 214) \<or> (216 \<le> n \<and> n \<le> 246) \<or> (248 \<le> n \<and> n \<le> 255))"

definition title_char :: "char \<Rightarrow> string" where
  "title_char c =
     (let n = (of_char c :: nat)
      in if (97 \<le> n \<and> n \<le> 122) \<or> (224 \<le> n \<and> n \<le> 246) \<or> (248 \<le> n \<and> n \<le> 254)
         then [char_of (n - 32)]
         else if n = 223 then ''Ss''
         else [c])"

definition lower_cased :: "char \<Rightarrow> char" where
  "lower_cased c =
     (let n = (of_char c :: nat)
      in if (65 \<le> n \<and> n \<le> 90) \<or> (192 \<le> n \<and> n \<le> 214) \<or> (216 \<le> n \<and> n \<le> 222)
         then char_of (n + 32)
         else c)"

fun title_from :: "bool \<Rightarrow> string \<Rightarrow> string" where
  "title_from prev [] = []"
| "title_from prev (c # cs) =
     (if prev then [lower_cased c] else title_char c) @ title_from (is_cased c) cs"

definition title :: "string \<Rightarrow> string" where
  "title s = title_from False s"

section \<open>Identifier validation\<close>

text \<open>
  The patterns of \<^verbatim>\<open>_is_valid_model_id\<close> are anchored prefixes, matched with
  \<^verbatim>\<open>re.match(pattern, model_id, re.IGNORECASE)\<close>. A pattern is a list of atoms: a
  literal character, or \<^verbatim>\<open>\d\<close>.
\<close>

datatype atom = Lit char | Digit

fun match_atom :: "atom \<Rightarrow> char \<Rightarrow> bool" where
  "match_atom (Lit p) c = (lower_char c = lower_char p)"
| "match_atom Digit c = is_digit c"

fun re_match :: "atom list \<Rightarrow> string \<Rightarrow> bool" where
  "re_match [] s = True"
| "re_match (a # as) [] = False"
| "re_match (a # as) (c # cs) = (match_atom a c \<and> re_match as cs)"

definition valid_patterns :: "atom list list" where
  "valid_patterns =
     [map Lit ''pplx_'',
      map Lit ''gpt'' @ [Digit],
      map Lit ''claude'',
      map Lit ''gemini'',
      map Lit ''grok'',
      map Lit ''sonar'',
      map Lit ''experimental'',
      map Lit ''kimi'',
      map Lit ''llama'',
      map Lit ''mistral'',
      map Lit ''deepseek'']"

definition exclude_patterns :: "atom list list" where
  "exclude_patterns =
     [map Lit ''api_'',
      map Lit ''user_'',
      map Lit ''session'',
      map Lit ''token'',
      map Lit ''auth'',
      map Lit ''config'']"

text \<open>
  \<^verbatim>\<open>_is_valid_model_id\<close> on a string: the length test, then the loop over the excluded
  patterns (the first match returns False), then the loop over the valid patterns (the
  first match returns True), then False.
\<close>

definition is_valid_model_id :: "string \<Rightarrow> bool" where
  "is_valid_model_id model_id =
     (if model_id = [] \<or> length model_id < 3 then False
      else if list_ex (\<lambda>pattern. re_match pattern model_id) exclude_patterns then False
      else if list_ex (\<lambda>pattern. re_match pattern model_id) valid_patterns then True
      else False)"

section \<open>Metadata inference\<close>

text \<open>\<^verbatim>\<open>_infer_provider\<close>\<close>

definition infer_provider :: "string \<Rightarrow> string" where
  "infer_provider model_id =
     (let model_id_lower = lower model_id in
      if startswith model_id_lower ''pplx'' \<or> model_id_lower = ''experimental''
        then ''Perplexity''
      else if startswith model_id_lower ''gpt'' then ''OpenAI''
      else if startswith model_id_lower ''claude'' then ''Anthropic''
      else if startswith model_id_lower ''gemini'' then ''Google''
      else if startswith model_id_lower ''grok'' then ''xAI''
      else if startswith model_id_lower ''kimi'' then ''Moonshot AI''
      else if startswith model_id_lower ''llama'' then ''Meta''
      else if startswith model_id_lower ''mistral'' then ''Mistral AI''
      else if startswith model_id_lower ''deepseek'' then ''DeepSeek''
      else ''Unknown'')"

text \<open>\<^verbatim>\<open>_infer_model_name\<close>: the table, then the title-cased identifier.\<close>

definition name_mappings :: "(string \<times> string) list" where
  "name_mappings =
     [(''pplx_beta'', ''Perplexity Labs''),
      (''pplx_alpha'', ''Perplexity Research''),
      (''pplx_pro'', ''Perplexity Pro (Auto)''),
      (''experimental'', ''Sonar''),
      (''gpt51'', ''GPT-5.1''),
      (''gpt52'', ''GPT-5.2''),
      (''gpt51_thinking'', ''GPT-5.1 Thinking''),
      (''claude45sonnet'', ''Claude 4.5 Sonnet''),
      (''claude45sonnetthinking'', ''Claude 4.5 Sonnet Thinking''),
      (''claudeopus45'', ''Claude Opus 4.5''),
      (''gemini30pro'', ''Gemini 3.0 Pro Thinking''),
      (''grok41nonreasoning'', ''Grok 4.1''),
      (''kimik2thinking'', ''Kimi K2 Thinking'')]"

definition infer_model_name :: "string \<Rightarrow> string" where
  "infer_model_name model_id =
     (case map_of name_mappings model_id of
        Some n \<Rightarrow> n
      | None \<Rightarrow> title (replace_char (CHR ''_'') (CHR '' '') model_id))"

section \<open>Values and records\<close>

text \<open>
  The values a JSON decoder produces: \<^verbatim>\<open>None\<close>, booleans, integers, floats, strings,
  lists and dicts. A dict is the list of its items in insertion order, its keys distinct;
  \<^verbatim>\<open>d.get(k)\<close> and \<^verbatim>\<open>k in d\<close> read it with \<open>map_of\<close>. A finite float
  \<open>Finite m e\<close> is \<open>m * 2 ^ e\<close>.
\<close>

datatype pyfloat = Finite int int | Infinity bool | NaN

datatype json =
    JNull
  | JBool bool
  | JInt int
  | JFloat pyfloat
  | JStr string
  | JArr "json list"
  | JObj "(string \<times> json) list"

type_synonym dict = "(string \<times> json) list"

text \<open>Truth value of a value, as \<^verbatim>\<open>if x\<close>, \<^verbatim>\<open>x or y\<close> and \<^verbatim>\<open>not x\<close> take it.\<close>

fun truthy :: "json \<Rightarrow> bool" where
  "truthy JNull = False"
| "truthy (JBool b) = b"
| "truthy (JInt n) = (n \<noteq> 0)"
| "truthy (JFloat (Finite m e)) = (m \<noteq> 0)"
| "truthy (JFloat f) = True"
| "truthy (JStr s) = (s \<noteq> [])"
| "truthy (JArr xs) = (xs \<noteq> [])"
| "truthy (JObj d) = (d \<noteq> [])"

text \<open>\<^verbatim>\<open>k in d\<close>, \<^verbatim>\<open>d.get(k)\<close> and \<^verbatim>\<open>d.get(k, default)\<close>\<close>

definition has_key :: "dict \<Rightarrow> string \<Rightarrow> bool" where
  "has_key d k = (map_of d k \<noteq> None)"

definition get :: "dict \<Rightarrow> string \<Rightarrow> json" where
  "get d k = (case map_of d k of Some v \<Rightarrow> v | None \<Rightarrow> JNull)"

definition get_default :: "dict \<Rightarrow> string \<Rightarrow> json \<Rightarrow> json" where
  "get_default d k dflt = (case map_of d k of Some v \<Rightarrow> v | None \<Rightarrow> dflt)"

text \<open>
  The exceptions of the model. \<open>LibraryError\<close> is any other exception a library call
  raises (a transport error, an HTTP error status, a recursion limit), named by its
  class.
\<close>

datatype error = TypeError | AttributeError | JSONDecodeError | LibraryError string

text \<open>
  \<^verbatim>\<open>ModelInfo\<close>. The dataclass does not check its field types: the fields filled from
  decoded JSON hold whatever value the JSON had. The identifier is a string on every path
  that constructs a \<^verbatim>\<open>ModelInfo\<close>.
\<close>

record ModelInfo =
  "identifier" :: string
  name :: json
  description :: json
  mode :: json
  provider :: json
  is_pro :: json
  supports_reasoning :: bool

text \<open>\<^verbatim>\<open>_create_model_info\<close>\<close>

definition create_model_info :: "string \<Rightarrow> ModelInfo" where
  "create_model_info model_id =
     (let name = infer_model_name model_id;
          provider = infer_provider model_id
      in \<lparr>identifier = model_id,
          name = JStr name,
          description = JStr (provider @ '' model''),
          mode = JStr ''copilot'',
          provider = JStr provider,
          is_pro = JBool (contains ''pro'' (lower model_id) \<or> contains ''alpha'' (lower model_id)),
          supports_reasoning =
            (contains ''thinking'' (lower model_id) \<or> contains ''reasoning'' (lower model_id))\<rparr>)"

text \<open>\<^verbatim>\<open>_get_default_models\<close>: the constructor's positional arguments, the defaults after.\<close>

definition mk :: "string \<Rightarrow> string \<Rightarrow> string \<Rightarrow> string \<Rightarrow> string \<Rightarrow> bool \<Rightarrow> bool \<Rightarrow> ModelInfo" where
  "mk i n d m p pro r =
     \<lparr>identifier = i, name = JStr n, description = JStr d, mode = JStr m, provider = JStr p,
      is_pro = JBool pro, supports_reasoning = r\<rparr>"

definition get_default_models :: "ModelInfo list" where
  "get_default_models =
     [mk ''pplx_pro'' ''Perplexity Pro (Auto)'' ''Auto-selects the best model'' ''copilot''
        ''Perplexity'' True False,
      mk ''pplx_alpha'' ''Perplexity Research'' ''Deep research mode'' ''copilot''
        ''Perplexity'' True False,
      mk ''pplx_beta'' ''Perplexity Labs'' ''Experimental features'' ''copilot''
        ''Perplexity'' True False,
      mk ''experimental'' ''Sonar'' ''Fast model for quick queries'' ''copilot''
        ''Perplexity'' False False,
      mk ''gpt51'' ''GPT-5.1'' (''OpenAI'' @ [CHR 0x27] @ ''s GPT-5.1'') ''copilot''
        ''OpenAI'' True False,
      mk ''gpt52'' ''GPT-5.2'' (''OpenAI'' @ [CHR 0x27] @ ''s GPT-5.2'') ''copilot''
        ''OpenAI'' True False,
      mk ''gpt51_thinking'' ''GPT-5.1 Thinking'' ''GPT-5.1 with reasoning'' ''copilot''
        ''OpenAI'' True True,
      mk ''claude45sonnet'' ''Claude 4.5 Sonnet''
        (''Anthropic'' @ [CHR 0x27] @ ''s Claude 4.5 Sonnet'') ''copilot''
        ''Anthropic'' True False,
      mk ''claude45sonnetthinking'' ''Claude 4.5 Sonnet Thinking''
        ''Claude 4.5 with reasoning'' ''copilot'' ''Anthropic'' True True,
      mk ''claudeopus45'' ''Claude Opus 4.5''
        (''Anthropic'' @ [CHR 0x27] @ ''s Claude Opus 4.5'') ''copilot''
        ''Anthropic'' True False,
      mk ''gemini30pro'' ''Gemini 3.0 Pro Thinking''
        (''Google'' @ [CHR 0x27] @ ''s Gemini with reasoning'') ''copilot''
        ''Google'' True True,
      mk ''grok41nonreasoning'' ''Grok 4.1'' (''xAI'' @ [CHR 0x27] @ ''s Grok 4.1'') ''copilot''
        ''xAI'' True False,
      mk ''kimik2thinking'' ''Kimi K2 Thinking''
        (''Moonshot AI'' @ [CHR 0x27] @ ''s Kimi K2'') ''copilot''
        ''Moonshot AI'' True True]"

section \<open>Pass A: the walk of the embedded JSON\<close>

text \<open>
  \<^verbatim>\<open>_is_valid_model_id\<close> as the walk calls it, on a value that need not be a string:
  \<^verbatim>\<open>not model_id or len(model_id) < 3\<close> returns False on a falsy value and on a list or
  dict of fewer than three entries, \<^verbatim>\<open>len\<close> raises on a number or a boolean, and
  \<^verbatim>\<open>re.match\<close> raises on a longer list or dict.
\<close>

fun is_valid_model_id_value :: "json \<Rightarrow> error + bool" where
  "is_valid_model_id_value (JStr s) = Inr (is_valid_model_id s)"
| "is_valid_model_id_value (JArr xs) = (if length xs < 3 then Inr False else Inl TypeError)"
| "is_valid_model_id_value (JObj d) = (if length d < 3 then Inr False else Inl TypeError)"
| "is_valid_model_id_value v = (if truthy v then Inl TypeError else Inr False)"

text \<open>The \<^verbatim>\<open>ModelInfo(...)\<close> the walk builds from a mapping and its identifier.\<close>

definition model_of_node :: "string \<Rightarrow> dict \<Rightarrow> ModelInfo" where
  "model_of_node model_id v =
     \<lparr>identifier = model_id,
      name = get_default v ''name'' (JStr model_id),
      description = get_default v ''description'' (JStr []),
      mode = get_default v ''mode'' (JStr ''copilot''),
      provider = get_default v ''provider'' (JStr ''unknown''),
      is_pro = get_default v ''isPro'' (JBool False),
      supports_reasoning =
        (contains ''thinking'' (lower model_id) \<or> contains ''reasoning'' (lower model_id))\<rparr>"

text \<open>
  \<^verbatim>\<open>value.get("identifier") or value.get("modelId")\<close>
\<close>

definition node_model_id :: "dict \<Rightarrow> json" where
  "node_model_id v =
     (if truthy (get v ''identifier'') then get v ''identifier'' else get v ''modelId'')"

text \<open>
  The test the walk makes on a mapping that is the value of a key: the list of models
  after it, or the exception it raises.
\<close>

definition check_node :: "dict \<Rightarrow> ModelInfo list \<Rightarrow> error + ModelInfo list" where
  "check_node v models =
     (if has_key v ''identifier'' \<or> has_key v ''modelId'' then
        (let model_id = node_model_id v in
         if \<not> truthy model_id then Inr models
         else (case is_valid_model_id_value model_id of
                 Inl e \<Rightarrow> Inl e
               | Inr ok \<Rightarrow>
                   (case model_id of
                      JStr s \<Rightarrow> if ok then Inr (models @ [model_of_node s v]) else Inr models
                    | _ \<Rightarrow> Inr models)))
      else Inr models)"

text \<open>
  \<^verbatim>\<open>search_dict\<close>, with the list \<^verbatim>\<open>models\<close> it appends to passed through.
  \<open>search_items\<close> is its loop over \<^verbatim>\<open>d.items()\<close>, \<open>search_list\<close> the inner loop over
  the elements of a list value.
\<close>

function (sequential)
    search_dict :: "dict \<Rightarrow> nat \<Rightarrow> ModelInfo list \<Rightarrow> error + ModelInfo list"
and search_items :: "dict \<Rightarrow> nat \<Rightarrow> ModelInfo list \<Rightarrow> error + ModelInfo list"
and search_list :: "json list \<Rightarrow> nat \<Rightarrow> ModelInfo list \<Rightarrow> error + ModelInfo list"
where
  "search_dict d depth models =
     (if depth > 10 then Inr models else search_items d depth models)"
| "search_items [] depth models = Inr models"
| "search_items ((key, JObj v) # rest) depth models =
     (case check_node v models of
        Inl e \<Rightarrow> Inl e
      | Inr models1 \<Rightarrow>
          (case search_dict v (depth + 1) models1 of
             Inl e \<Rightarrow> Inl e
           | Inr models2 \<Rightarrow> search_items rest depth models2))"
| "search_items ((key, JArr xs) # rest) depth models =
     (case search_list xs depth models of
        Inl e \<Rightarrow> Inl e
      | Inr models1 \<Rightarrow> search_items rest depth models1)"
| "search_items ((key, value) # rest) depth models = search_items rest depth models"
| "search_list [] depth models = Inr models"
| "search_list (JObj v # items) depth models =
     (case search_dict v (depth + 1) models of
        Inl e \<Rightarrow> Inl e
      | Inr models1 \<Rightarrow> search_list items depth models1)"
| "search_list (item # items) depth models = search_list items depth models"
  by pat_completeness auto

termination
  by (relation "measure (\<lambda>x. case x of
        Inl (d, _, _) \<Rightarrow> 2 * size_list (size_prod (\<lambda>_. 0) size) d + 1
      | Inr (Inl (d, _, _)) \<Rightarrow> 2 * size_list (size_prod (\<lambda>_. 0) size) d
      | Inr (Inr (xs, _, _)) \<Rightarrow> 2 * size_list size xs)") auto

text \<open>
  \<^verbatim>\<open>_parse_next_data\<close>: the walk from depth 0 with no models. On a decoded value that is
  not a dict, \<^verbatim>\<open>d.items()\<close> raises.
\<close>

definition parse_next_data :: "json \<Rightarrow> error + ModelInfo list" where
  "parse_next_data data =
     (case data of
        JObj d \<Rightarrow> search_dict d 0 []
      | _ \<Rightarrow> Inl AttributeError)"

section \<open>Pass B: the patterns over the raw text\<close>

text \<open>
  The character classes of the patterns, on 8-bit characters: \<^verbatim>\<open>\s\<close>, the quote
  characters, and \<^verbatim>\<open>[a-z0-9_]\<close> under \<^verbatim>\<open>re.IGNORECASE\<close>.
\<close>

definition is_space :: "char \<Rightarrow> bool" where
  "is_space c =
     (let n = (of_char c :: nat)
      in (9 \<le> n \<and> n \<le> 13) \<or> (28 \<le> n \<and> n \<le> 32) \<or> n = 133 \<or> n = 160)"

definition dquote :: char where
  "dquote = CHR 0x22"

definition squote :: char where
  "squote = CHR 0x27"

definition is_quote :: "char \<Rightarrow> bool" where
  "is_quote c = (c = dquote \<or> c = squote)"

definition is_id_char :: "char \<Rightarrow> bool" where
  "is_id_char c = (is_lower c \<or> is_upper c \<or> is_digit c \<or> c = CHR ''_'')"

text \<open>A literal of a pattern, matched without regard to case: the text left after it.\<close>

fun match_lit :: "string \<Rightarrow> string \<Rightarrow> string option" where
  "match_lit [] s = Some s"
| "match_lit (p # ps) [] = None"
| "match_lit (p # ps) (c # cs) =
     (if lower_char c = lower_char p then match_lit ps cs else None)"

text \<open>
  The tail shared by the three patterns, after the separator:
  \<^verbatim>\<open>\s*Q([a-z0-9_]+)Q\<close>, where \<open>quote\<close> says which characters \<^verbatim>\<open>Q\<close> stands for.
  The result is group 1 and the text left after the match. No step can match in two
  ways (a space is no quote, a quote is no identifier character), so the greedy match
  is the only one.
\<close>

definition match_value :: "(char \<Rightarrow> bool) \<Rightarrow> string \<Rightarrow> (string \<times> string) option" where
  "match_value quote s =
     (case dropWhile is_space s of
        [] \<Rightarrow> None
      | q # s1 \<Rightarrow>
          if \<not> quote q then None
          else (let g = takeWhile is_id_char s1 in
                if g = [] then None
                else (case dropWhile is_id_char s1 of
                        [] \<Rightarrow> None
                      | q2 # s2 \<Rightarrow> if quote q2 then Some (g, s2) else None)))"

text \<open>
  \<^verbatim>\<open>"identifier"\s*:\s*"([a-z0-9_]+)"\<close> and \<^verbatim>\<open>"model"\s*:\s*"([a-z0-9_]+)"\<close>,
  tried at the start of \<open>s\<close>.
\<close>

definition match_key_pattern :: "string \<Rightarrow> string \<Rightarrow> (string \<times> string) option" where
  "match_key_pattern key s =
     (case match_lit ([dquote] @ key @ [dquote]) s of
        None \<Rightarrow> None
      | Some s1 \<Rightarrow>
          (case dropWhile is_space s1 of
             [] \<Rightarrow> None
           | c # s2 \<Rightarrow> if c = CHR '':'' then match_value (\<lambda>q. q = dquote) s2 else None))"

text \<open>
  \<^verbatim>\<open>modelId["\']?\s*[:=]\s*["\']([a-z0-9_]+)["\']\<close>, tried at the start of \<open>s\<close>.
\<close>

definition match_model_id_pattern :: "string \<Rightarrow> (string \<times> string) option" where
  "match_model_id_pattern s =
     (case match_lit ''modelId'' s of
        None \<Rightarrow> None
      | Some s1 \<Rightarrow>
          (let s2 = (case s1 of [] \<Rightarrow> s1 | q # r \<Rightarrow> if is_quote q then r else s1) in
           case dropWhile is_space s2 of
             [] \<Rightarrow> None
           | c # s3 \<Rightarrow>
               if c = CHR '':'' \<or> c = CHR ''='' then match_value is_quote s3 else None))"

definition model_patterns :: "(string \<Rightarrow> (string \<times> string) option) list" where
  "model_patterns =
     [match_key_pattern ''identifier'',
      match_key_pattern ''model'',
      match_model_id_pattern]"

text \<open>
  \<^verbatim>\<open>re.finditer\<close>: the matches from left to right, without overlap. \<open>skip\<close> counts the
  characters still covered by the last match; group 1 of each match is returned.
\<close>

fun finditer :: "(string \<Rightarrow> (string \<times> string) option) \<Rightarrow> nat \<Rightarrow> string \<Rightarrow> string list" where
  "finditer pattern skip [] = []"
| "finditer pattern skip (c # cs) =
     (if skip > 0 then finditer pattern (skip - 1) cs
      else (case pattern (c # cs) of
              None \<Rightarrow> finditer pattern 0 cs
            | Some (g, rest) \<Rightarrow> g # finditer pattern (length cs - length rest) cs))"

text \<open>
  The set \<^verbatim>\<open>found_ids\<close>, as the list of its elements in the order they were first
  added.
\<close>

definition set_add :: "string \<Rightarrow> string list \<Rightarrow> string list" where
  "set_add x xs = (if x \<in> set xs then xs else xs @ [x])"

definition collect_ids :: "string \<Rightarrow> string list" where
  "collect_ids html =
     fold (\<lambda>pattern found.
             fold (\<lambda>model_id found. if is_valid_model_id model_id then set_add model_id found
                                     else found)
                  (finditer pattern 0 html) found)
          model_patterns []"

text \<open>
  A Python set yields its elements in an order fixed by their hashes, which differ from
  one process to the next. The order is a parameter: \<open>h\<close> ranks the strings, and the set
  is iterated by rank. Every order of the elements is the one of some \<open>h\<close>.
\<close>

definition iterate :: "(string \<Rightarrow> nat) \<Rightarrow> string list \<Rightarrow> string list" where
  "iterate h xs = sort_key h xs"

section \<open>The extractor\<close>

text \<open>
  \<^verbatim>\<open>re.search\<close> of the script tag with \<^verbatim>\<open>re.DOTALL\<close>: the first opening tag, and
  the text up to the first closing tag after it. \<open>split_at sub s\<close> cuts \<open>s\<close> at the first
  occurrence of \<open>sub\<close>.
\<close>

fun split_at :: "string \<Rightarrow> string \<Rightarrow> (string \<times> string) option" where
  "split_at sub [] = (if sub = [] then Some ([], []) else None)"
| "split_at sub (c # cs) =
     (if startswith (c # cs) sub then Some ([], drop (length sub) (c # cs))
      else map_option (\<lambda>(before, after). (c # before, after)) (split_at sub cs))"

definition next_data_open :: string where
  "next_data_open =
     ''<script id='' @ [dquote] @ ''__NEXT_DATA__'' @ [dquote] @
     '' type='' @ [dquote] @ ''application/json'' @ [dquote] @ ''>''"

definition next_data_search :: "string \<Rightarrow> string option" where
  "next_data_search html =
     (case split_at next_data_open html of
        None \<Rightarrow> None
      | Some (before, rest) \<Rightarrow> map_option fst (split_at ''</script>'' rest))"

text \<open>
  The first block of \<^verbatim>\<open>_extract_models_from_html\<close>. \<^verbatim>\<open>json.loads\<close> is the
  parameter \<open>loads\<close>; only its \<^verbatim>\<open>JSONDecodeError\<close> is caught.
\<close>

definition embedded_models :: "(string \<Rightarrow> error + json) \<Rightarrow> string \<Rightarrow> error + ModelInfo list" where
  "embedded_models loads html =
     (case next_data_search html of
        None \<Rightarrow> Inr []
      | Some content \<Rightarrow>
          (case loads content of
             Inl e \<Rightarrow> if e = JSONDecodeError then Inr [] else Inl e
           | Inr data \<Rightarrow> parse_next_data data))"

text \<open>\<^verbatim>\<open>_extract_models_from_html\<close>\<close>

definition extract_models_from_html ::
  "(string \<Rightarrow> error + json) \<Rightarrow> (string \<Rightarrow> nat) \<Rightarrow> string \<Rightarrow> error + ModelInfo list" where
  "extract_models_from_html loads h html =
     (case embedded_models loads html of
        Inl e \<Rightarrow> Inl e
      | Inr models \<Rightarrow>
          (let found_ids = collect_ids html;
               existing_ids = set (map identifier models)
           in Inr (fold (\<lambda>model_id models.
                           if model_id \<notin> existing_ids
                           then models @ [create_model_info model_id] else models)
                        (iterate h found_ids) models)))"

section \<open>The fetcher\<close>

text \<open>
  What the HTTP library gives for a request: an exception, or a response with its status
  code, what \<^verbatim>\<open>raise_for_status()\<close> raises, its text, and what \<^verbatim>\<open>json()\<close> returns or
  raises. The world maps a URL to the outcome of \<^verbatim>\<open>session.get(url)\<close>. The session
  itself is built once, before the \<^verbatim>\<open>try\<close> of \<^verbatim>\<open>fetch_models\<close>, by a constructor
  that sends no request; it is taken as given.
\<close>

record response =
  status_code :: int
  raise_for_status :: "error option"
  "text" :: string
  json :: "error + json"

type_synonym world = "string \<Rightarrow> error + response"

definition API_BASE_URL :: string where
  "API_BASE_URL = ''https://www.perplexity.ai''"

text \<open>
  The \<^verbatim>\<open>ModelInfo(...)\<close> that \<^verbatim>\<open>_fetch_from_settings\<close> builds from a mapping with a
  string identifier; the three last fields are the defaults of the dataclass.
\<close>

definition model_of_record :: "string \<Rightarrow> dict \<Rightarrow> ModelInfo" where
  "model_of_record i m =
     \<lparr>identifier = i,
      name = get_default m ''name'' (JStr i),
      description = get_default m ''description'' (JStr []),
      mode = get_default m ''mode'' (JStr ''copilot''),
      provider = JStr (infer_provider i),
      is_pro = JBool False,
      supports_reasoning = False\<rparr>"

text \<open>
  The loop over the elements of a model list. An exception leaves the loop with the
  models appended so far: \<^verbatim>\<open>_infer_provider\<close> raises on an identifier that is not a
  string.
\<close>

fun add_models :: "json list \<Rightarrow> ModelInfo list \<Rightarrow> ModelInfo list \<times> error option" where
  "add_models [] models = (models, None)"
| "add_models (JStr s # rest) models = add_models rest (models @ [create_model_info s])"
| "add_models (JObj m # rest) models =
     (if has_key m ''identifier'' then
        (case get m ''identifier'' of
           JStr i \<Rightarrow> add_models rest (models @ [model_of_record i m])
         | _ \<Rightarrow> (models, Some AttributeError))
      else add_models rest models)"
| "add_models (m # rest) models = add_models rest models"

text \<open>The loop over the three keys.\<close>

fun scan_keys :: "string list \<Rightarrow> dict \<Rightarrow> ModelInfo list \<Rightarrow> ModelInfo list \<times> error option" where
  "scan_keys [] data models = (models, None)"
| "scan_keys (key # keys) data models =
     (if has_key data key then
        (case get data key of
           JArr model_list \<Rightarrow>
             (case add_models model_list models of
                (models1, Some e) \<Rightarrow> (models1, Some e)
              | (models1, None) \<Rightarrow> scan_keys keys data models1)
         | _ \<Rightarrow> scan_keys keys data models)
      else scan_keys keys data models)"

definition model_keys :: "string list" where
  "model_keys = [''models'', ''availableModels'', ''supportedModels'']"

text \<open>One endpoint: the body of the \<^verbatim>\<open>try\<close>, whose exceptions are dropped.\<close>

definition fetch_endpoint :: "world \<Rightarrow> string \<Rightarrow> ModelInfo list \<Rightarrow> ModelInfo list" where
  "fetch_endpoint w endpoint models =
     (case w (API_BASE_URL @ endpoint) of
        Inl e \<Rightarrow> models
      | Inr response \<Rightarrow>
          if status_code response = 200 then
            (case json response of
               Inl e \<Rightarrow> models
             | Inr data \<Rightarrow>
                 (case data of
                    JObj d \<Rightarrow> fst (scan_keys model_keys d models)
                  | _ \<Rightarrow> models))
          else models)"

definition endpoints :: "string list" where
  "endpoints = [''/api/auth/session'', ''/api/user/settings'']"

text \<open>\<^verbatim>\<open>_fetch_from_settings\<close>\<close>

definition fetch_from_settings :: "world \<Rightarrow> ModelInfo list" where
  "fetch_from_settings w = fold (fetch_endpoint w) endpoints []"

text \<open>
  The body of the \<^verbatim>\<open>try\<close> of \<^verbatim>\<open>fetch_models\<close>: the list it returns, or the exception
  that leaves it.
\<close>

definition fetch_page ::
  "(string \<Rightarrow> error + json) \<Rightarrow> (string \<Rightarrow> nat) \<Rightarrow> world \<Rightarrow> error + ModelInfo list" where
  "fetch_page loads h w =
     (case w API_BASE_URL of
        Inl e \<Rightarrow> Inl e
      | Inr response \<Rightarrow>
          (case raise_for_status response of
             Some e \<Rightarrow> Inl e
           | None \<Rightarrow>
               (case extract_models_from_html loads h (text response) of
                  Inl e \<Rightarrow> Inl e
                | Inr models \<Rightarrow>
                    (let models1 = (if models = [] then fetch_from_settings w else models);
                         models2 = (if models1 = [] then get_default_models else models1)
                     in Inr models2))))"

text \<open>
  \<^verbatim>\<open>fetch_models\<close>: the list returned, the list left in \<^verbatim>\<open>self._models\<close>, and the
  lines written to the error stream, each \<^verbatim>\<open>Error fetching models:\<close> followed by the
  exception given here.
\<close>

record fetched =
  returned :: "ModelInfo list"
  models_attr :: "ModelInfo list"
  stderr :: "error list"

definition fetch_models ::
  "(string \<Rightarrow> error + json) \<Rightarrow> (string \<Rightarrow> nat) \<Rightarrow> world \<Rightarrow> fetched" where
  "fetch_models loads h w =
     (case fetch_page loads h w of
        Inr models \<Rightarrow> \<lparr>returned = models, models_attr = models, stderr = []\<rparr>
      | Inl e \<Rightarrow>
          \<lparr>returned = get_default_models, models_attr = get_default_models, stderr = [e]\<rparr>)"

section \<open>Notions used in the statements\<close>

text \<open>\<open>s\<close> starts with \<open>p\<close>, case being ignored.\<close>

definition ci_startswith :: "string \<Rightarrow> string \<Rightarrow> bool" where
  "ci_startswith s p = prefix (lower p) (lower s)"


text \<open>
  The mappings \<^verbatim>\<open>search_dict\<close> is called on during the walk of \<open>root\<close>, with their
  depth: the root at depth 0, and below a mapping searched at a depth of at most 10, the
  mappings that are values of its keys and the mappings that are elements of its list
  values.
\<close>

inductive visited :: "dict \<Rightarrow> dict \<Rightarrow> nat \<Rightarrow> bool" for root :: dict where
  visited_root: "visited root root 0"
| visited_value:
    "visited root d n \<Longrightarrow> n \<le> 10 \<Longrightarrow> (key, JObj v) \<in> set d \<Longrightarrow> visited root v (Suc n)"
| visited_item:
    "visited root d n \<Longrightarrow> n \<le> 10 \<Longrightarrow> (key, JArr xs) \<in> set d \<Longrightarrow> JObj v \<in> set xs \<Longrightarrow>
     visited root v (Suc n)"

text \<open>
  The elements of a settings response on which the conversion raises: a mapping whose
  \<^verbatim>\<open>identifier\<close> is not a string.
\<close>

fun raises_on :: "json \<Rightarrow> bool" where
  "raises_on (JObj m) =
     (case map_of m ''identifier'' of
        None \<Rightarrow> False
      | Some (JStr i) \<Rightarrow> False
      | Some other \<Rightarrow> True)"
| "raises_on element = False"

text \<open>
  What one element of a model list contributes: a string is classified by inference; a
  mapping with a string identifier gives a record with its name, description and mode
  (the identifier, the empty string and \<^verbatim>\<open>copilot\<close> when absent), the provider inferred
  from the identifier, and both flags False; any other element gives nothing.
\<close>

fun element_models :: "json \<Rightarrow> ModelInfo list" where
  "element_models (JStr s) = [create_model_info s]"
| "element_models (JObj m) =
     (case map_of m ''identifier'' of
        Some (JStr i) \<Rightarrow>
          [\<lparr>identifier = i,
            name = (case map_of m ''name'' of Some x \<Rightarrow> x | None \<Rightarrow> JStr i),
            description = (case map_of m ''description'' of Some x \<Rightarrow> x | None \<Rightarrow> JStr []),
            mode = (case map_of m ''mode'' of Some x \<Rightarrow> x | None \<Rightarrow> JStr ''copilot''),
            provider = JStr (infer_provider i),
            is_pro = JBool False,
            supports_reasoning = False\<rparr>]
      | other \<Rightarrow> [])"
| "element_models element = []"

text \<open>
  The elements of the lists found under the given keys of a response, in the order of
  the keys and then of the positions.
\<close>

definition listed :: "string list \<Rightarrow> dict \<Rightarrow> json list" where
  "listed keys data =
     concat (map (\<lambda>key. case map_of data key of Some (JArr xs) \<Rightarrow> xs | other \<Rightarrow> []) keys)"

text \<open>
  The elements an endpoint offers: those of its response when the request succeeds with
  status 200 and the body decodes to a mapping, none otherwise.
\<close>

definition endpoint_elements :: "world \<Rightarrow> string \<Rightarrow> json list" where
  "endpoint_elements w endpoint =
     (case w (API_BASE_URL @ endpoint) of
        Inl e \<Rightarrow> []
      | Inr r \<Rightarrow>
          if status_code r = 200
          then (case json r of
                  Inr (JObj data) \<Rightarrow>
                    listed [''models'', ''availableModels'', ''supportedModels''] data
                | other \<Rightarrow> [])
          else [])"

text \<open>
  The exception that reaches the top level of \<^verbatim>\<open>fetch_models\<close>, if any: the one of the
  page request, else the one of \<^verbatim>\<open>raise_for_status\<close>, else, when the page has the
  script tag, the one of the decoder unless it is a \<^verbatim>\<open>JSONDecodeError\<close>, else the one
  of the walk of the decoded data. The settings endpoints play no part in it.
\<close>

definition escaping :: "(string \<Rightarrow> error + json) \<Rightarrow> world \<Rightarrow> error option" where
  "escaping loads w =
     (case w API_BASE_URL of
        Inl e \<Rightarrow> Some e
      | Inr r \<Rightarrow>
          (case raise_for_status r of
             Some e \<Rightarrow> Some e
           | None \<Rightarrow>
               (case next_data_search (text r) of
                  None \<Rightarrow> None
                | Some content \<Rightarrow>
                    (case loads content of
                       Inl e \<Rightarrow> if e = JSONDecodeError then None else Some e
                     | Inr data \<Rightarrow>
                         (case parse_next_data data of
                            Inl e \<Rightarrow> Some e
                          | Inr models \<Rightarrow> None)))))"

section \<open>Sample inputs\<close>

text \<open>A decoder for pages that embed no JSON: every text is malformed.\<close>

definition no_json :: "string \<Rightarrow> error + json" where
  "no_json content = Inl JSONDecodeError"

text \<open>A world where every request fails in transport.\<close>

definition offline :: world where
  "offline url = Inl (LibraryError ''ConnectionError'')"

text \<open>A page with no script and no identifier; every other URL answers 404.\<close>

definition not_found :: response where
  "not_found = \<lparr>status_code = 404, raise_for_status = Some (LibraryError ''HTTPError''),
                 text = ''Not Found'', json = Inl JSONDecodeError\<rparr>"

definition empty_page :: world where
  "empty_page url =
     (if url = API_BASE_URL
      then Inr \<lparr>status_code = 200, raise_for_status = None, text = ''<html></html>'',
                json = Inl JSONDecodeError\<rparr>
      else Inr not_found)"

text \<open>
  A decoded page state: the model definition is the value of the key \<^verbatim>\<open>primary\<close> of a
  mapping that is an element of a list, two levels below the root.
\<close>

definition sample_node :: dict where
  "sample_node = [(''modelId'', JStr ''gpt5_thinking''), (''isPro'', JBool True)]"

definition sample_data :: dict where
  "sample_data =
     [(''props'', JObj [(''models'', JArr [JObj [(''primary'', JObj sample_node)]])])]"

text \<open>A text between double quotes.\<close>

definition quoted :: "string \<Rightarrow> string" where
  "quoted s = [dquote] @ s @ [dquote]"

text \<open>
  A page whose embedded JSON defines the identifier \<^verbatim>\<open>claude\<close> twice:
  \<^verbatim>\<open>{"a":{"identifier":"claude"},"b":{"identifier":"claude","name":"Claude"}}\<close>,
  and the decoder on that text.
\<close>

definition dup_text :: string where
  "dup_text =
     ''{'' @ quoted ''a'' @ '':{'' @ quoted ''identifier'' @ '':'' @ quoted ''claude'' @ ''},''
     @ quoted ''b'' @ '':{'' @ quoted ''identifier'' @ '':'' @ quoted ''claude'' @ '',''
     @ quoted ''name'' @ '':'' @ quoted ''Claude'' @ ''}}''"

definition dup_page :: string where
  "dup_page = ''<html>'' @ next_data_open @ dup_text @ ''</script></html>''"

definition dup_loads :: "string \<Rightarrow> error + json" where
  "dup_loads content =
     (if content = dup_text
      then Inr (JObj [(''a'', JObj [(''identifier'', JStr ''claude'')]),
                      (''b'', JObj [(''identifier'', JStr ''claude''),
                                    (''name'', JStr ''Claude'')])])
      else Inl JSONDecodeError)"

text \<open>
  A page whose embedded JSON defines \<^verbatim>\<open>claude\<close> once,
  \<^verbatim>\<open>{"a":{"identifier":"claude","name":"Claude"}}\<close>, followed by a script that names
  \<^verbatim>\<open>gpt5\<close>; and the decoder on that text.
\<close>

definition merge_text :: string where
  "merge_text =
     ''{'' @ quoted ''a'' @ '':{'' @ quoted ''identifier'' @ '':'' @ quoted ''claude'' @ '',''
     @ quoted ''name'' @ '':'' @ quoted ''Claude'' @ ''}}''"

definition merge_page :: string where
  "merge_page =
     ''<html>'' @ next_data_open @ merge_text @ ''</script><script>var m = {''
     @ quoted ''model'' @ '': '' @ quoted ''gpt5'' @ ''}</script></html>''"

definition merge_loads :: "string \<Rightarrow> error + json" where
  "merge_loads content =
     (if content = merge_text
      then Inr (JObj [(''a'', JObj [(''identifier'', JStr ''claude''),
                                    (''name'', JStr ''Claude'')])])
      else Inl JSONDecodeError)"

text \<open>The rank that makes a set yield its elements in the order they were added.\<close>

definition first_added :: "string \<Rightarrow> nat" where
  "first_added i = 0"

text \<open>
  A world whose page is empty and whose session endpoint answers
  \<^verbatim>\<open>{"models": ["claude", {"identifier": "gpt5", "isPro": true}, 7],
  "supportedModels": [{"identifier": 5}, "grok"]}\<close>.
\<close>

definition settings_world :: world where
  "settings_world url =
     (if url = API_BASE_URL
      then Inr \<lparr>status_code = 200, raise_for_status = None, text = ''<html></html>'',
                json = Inl JSONDecodeError\<rparr>
      else if url = API_BASE_URL @ ''/api/auth/session''
      then Inr \<lparr>status_code = 200, raise_for_status = None, text = [],
                json = Inr (JObj
                  [(''models'', JArr [JStr ''claude'',
                                      JObj [(''identifier'', JStr ''gpt5''), (''isPro'', JBool True)],
                                      JInt 7]),
                   (''supportedModels'', JArr [JObj [(''identifier'', JInt 5)], JStr ''grok''])])\<rparr>
      else Inr not_found)"

text \<open>
  A world whose page is empty and whose session endpoint answers
  \<^verbatim>\<open>{"models": [{"identifier": 5}, "claude"]}\<close>.
\<close>

definition numbered_world :: world where
  "numbered_world url =
     (if url = API_BASE_URL
      then Inr \<lparr>status_code = 200, raise_for_status = None, text = ''<html></html>'',
                json = Inl JSONDecodeError\<rparr>
      else if url = API_BASE_URL @ ''/api/auth/session''
      then Inr \<lparr>status_code = 200, raise_for_status = None, text = [],
                json = Inr (JObj [(''models'', JArr [JObj [(''identifier'', JInt 5)],
                                                     JStr ''claude''])])\<rparr>
      else Inr not_found)"

text \<open>
  A world whose page is empty and whose session endpoint answers
  \<^verbatim>\<open>{"models": [{"identifier": "gpt5", "provider": "Acme", "isPro": true}]}\<close>.
\<close>

definition branded_world :: world where
  "branded_world url =
     (if url = API_BASE_URL
      then Inr \<lparr>status_code = 200, raise_for_status = None, text = ''<html></html>'',
                json = Inl JSONDecodeError\<rparr>
      else if url = API_BASE_URL @ ''/api/auth/session''
      then Inr \<lparr>status_code = 200, raise_for_status = None, text = [],
                json = Inr (JObj [(''models'',
                  JArr [JObj [(''identifier'', JStr ''gpt5''), (''provider'', JStr ''Acme''),
                              (''isPro'', JBool True)]])])\<rparr>
      else Inr not_found)"

text \<open>
  A world whose page is empty and whose session endpoint answers \<^verbatim>\<open>{"models": [""]}\<close>.
\<close>

definition blank_world :: world where
  "blank_world url =
     (if url = API_BASE_URL
      then Inr \<lparr>status_code = 200, raise_for_status = None, text = ''<html></html>'',
                json = Inl JSONDecodeError\<rparr>
      else if url = API_BASE_URL @ ''/api/auth/session''
      then Inr \<lparr>status_code = 200, raise_for_status = None, text = [],
                json = Inr (JObj [(''models'', JArr [JStr []])])\<rparr>
      else Inr not_found)"

text \<open>
  A world whose page embeds \<^verbatim>\<open>{"a":{"identifier":"claude","name":""}}\<close>, and the decoder
  on that text.
\<close>

definition unnamed_text :: string where
  "unnamed_text =
     ''{'' @ quoted ''a'' @ '':{'' @ quoted ''identifier'' @ '':'' @ quoted ''claude'' @ '',''
     @ quoted ''name'' @ '':'' @ quoted [] @ ''}}''"

definition unnamed_loads :: "string \<Rightarrow> error + json" where
  "unnamed_loads content =
     (if content = unnamed_text
      then Inr (JObj [(''a'', JObj [(''identifier'', JStr ''claude''), (''name'', JStr [])])])
      else Inl JSONDecodeError)"

definition unnamed_world :: world where
  "unnamed_world url =
     (if url = API_BASE_URL
      then Inr \<lparr>status_code = 200, raise_for_status = None,
                text = ''<html>'' @ next_data_open @ unnamed_text @ ''</script></html>'',
                json = Inl JSONDecodeError\<rparr>
      else Inr not_found)"

text \<open>
  A world whose page embeds the malformed JSON \<^verbatim>\<open>{oops\<close> and names \<^verbatim>\<open>claude45\<close> in
  a later script.
\<close>

definition malformed_page :: string where
  "malformed_page =
     next_data_open @ ''{oops</script>'' @ quoted ''model'' @ '':'' @ quoted ''claude45''"

definition malformed_world :: world where
  "malformed_world url =
     (if url = API_BASE_URL
      then Inr \<lparr>status_code = 200, raise_for_status = None, text = malformed_page,
                json = Inl JSONDecodeError\<rparr>
      else Inr not_found)"

text \<open>
  A world whose page is empty, whose session endpoint fails in transport and whose
  settings endpoint answers \<^verbatim>\<open>{"models": ["claude"]}\<close>.
\<close>

definition flaky_world :: world where
  "flaky_world url =
     (if url = API_BASE_URL
      then Inr \<lparr>status_code = 200, raise_for_status = None, text = ''<html></html>'',
                json = Inl JSONDecodeError\<rparr>
      else if url = API_BASE_URL @ ''/api/auth/session''
      then Inl (LibraryError ''ConnectionError'')
      else if url = API_BASE_URL @ ''/api/user/settings''
      then Inr \<lparr>status_code = 200, raise_for_status = None, text = [],
                json = Inr (JObj [(''models'', JArr [JStr ''claude''])])\<rparr>
      else Inr not_found)"

text \<open>
  A world whose page embeds \<^verbatim>\<open>{"a":{"identifier":5}}\<close>, and the decoder on that text.
\<close>

definition numeric_text :: string where
  "numeric_text = ''{'' @ quoted ''a'' @ '':{'' @ quoted ''identifier'' @ '':5}}''"

definition numeric_loads :: "string \<Rightarrow> error + json" where
  "numeric_loads content =
     (if content = numeric_text
      then Inr (JObj [(''a'', JObj [(''identifier'', JInt 5)])])
      else Inl JSONDecodeError)"

definition numeric_world :: world where
  "numeric_world url =
     (if url = API_BASE_URL
      then Inr \<lparr>status_code = 200, raise_for_status = None,
                text = next_data_open @ numeric_text @ ''</script>'',
                json = Inl JSONDecodeError\<rparr>
      else Inr not_found)"

section \<open>Properties of the text functions\<close>

lemma startswith_prefix: "startswith s p = prefix p s"
  unfolding startswith_def by (metis take_is_prefix prefix_def append_eq_conv_conj)

lemma contains_sublist: "contains sub s = sublist sub s"
  by (induction s) (simp_all add: sublist_Cons_right startswith_prefix)

lemma re_match_Lit: "re_match (map Lit p) s = prefix (lower p) (lower s)"
  by (induction p arbitrary: s; case_tac s) (auto simp: lower_def)

lemma re_match_Lit_Digit:
  "re_match (map Lit p @ [Digit]) s =
     (prefix (lower p) (lower s) \<and> length p < length s \<and> is_digit (s ! length p))"
proof (induction p arbitrary: s)
  case Nil
  show ?case by (cases s) (simp_all add: lower_def)
next
  case (Cons a p)
  show ?case by (cases s) (auto simp: lower_def Cons.IH)
qed

section \<open>Identifier validation: what is accepted\<close>

text \<open>
  C3. A string is accepted exactly when it has at least three characters, starts with
  none of the excluded prefixes \<^verbatim>\<open>api_\<close>, \<^verbatim>\<open>user_\<close>, \<^verbatim>\<open>session\<close>, \<^verbatim>\<open>token\<close>,
  \<^verbatim>\<open>auth\<close>, \<^verbatim>\<open>config\<close>, and starts with one of the accepted prefixes (\<^verbatim>\<open>gpt\<close> being
  followed by a digit), case being ignored throughout. A string with an excluded prefix
  is rejected whatever else holds of it, and \<^verbatim>\<open>api_internal_key\<close> is rejected.
\<close>

theorem is_valid_model_id_iff:
  "(is_valid_model_id s \<longleftrightarrow>
     3 \<le> length s \<and>
     \<not> (\<exists>p \<in> set [''api_'', ''user_'', ''session'', ''token'', ''auth'', ''config''].
          ci_startswith s p) \<and>
     ((\<exists>p \<in> set [''pplx_'', ''claude'', ''gemini'', ''grok'', ''sonar'', ''experimental'',
                  ''kimi'', ''llama'', ''mistral'', ''deepseek'']. ci_startswith s p)
      \<or> (ci_startswith s ''gpt'' \<and> 3 < length s \<and> is_digit (s ! 3))))
   \<and> ((\<exists>p \<in> set [''api_'', ''user_'', ''session'', ''token'', ''auth'', ''config''].
          ci_startswith s p) \<longrightarrow> \<not> is_valid_model_id s)
   \<and> \<not> is_valid_model_id ''api_internal_key''"
proof -
  have iff: "is_valid_model_id t \<longleftrightarrow>
     3 \<le> length t \<and>
     \<not> (\<exists>p \<in> set [''api_'', ''user_'', ''session'', ''token'', ''auth'', ''config''].
          ci_startswith t p) \<and>
     ((\<exists>p \<in> set [''pplx_'', ''claude'', ''gemini'', ''grok'', ''sonar'', ''experimental'',
                  ''kimi'', ''llama'', ''mistral'', ''deepseek'']. ci_startswith t p)
      \<or> (ci_startswith t ''gpt'' \<and> 3 < length t \<and> is_digit (t ! 3)))" for t
    unfolding is_valid_model_id_def valid_patterns_def exclude_patterns_def ci_startswith_def
    apply (simp only: list_ex_iff list.set re_match_Lit re_match_Lit_Digit bex_simps ball_simps)
    apply (simp only: list.size insert_iff empty_iff bex_simps ball_simps simp_thms)
    apply (auto simp: numeral_3_eq_3)
    done
  have api: "\<not> is_valid_model_id ''api_internal_key''"
    by code_simp
  from iff [of s] api show ?thesis by blast
qed

text \<open>The theorem at \<^verbatim>\<open>Claude45\<close>, accepted, and at \<^verbatim>\<open>session_claude\<close>, rejected.\<close>

theorem is_valid_model_id_iff_witness:
  "is_valid_model_id ''Claude45'' \<and> ci_startswith ''Claude45'' ''claude''
   \<and> ci_startswith ''session_claude'' ''session'' \<and> \<not> is_valid_model_id ''session_claude''"
proof -
  have a: "ci_startswith ''Claude45'' ''claude''"
    unfolding ci_startswith_def by code_simp
  have b: "ci_startswith ''session_claude'' ''session''"
    unfolding ci_startswith_def by code_simp
  have c: "is_valid_model_id ''Claude45''"
    by code_simp
  from a b c is_valid_model_id_iff [of "''session_claude''"] show ?thesis by simp
qed

section \<open>Metadata inference: the rules\<close>

text \<open>
  C9. For an identifier classified without embedded metadata, \<^verbatim>\<open>is_pro\<close> holds exactly
  when the lower-cased identifier contains \<^verbatim>\<open>pro\<close> or \<^verbatim>\<open>alpha\<close>,
  \<^verbatim>\<open>supports_reasoning\<close> exactly when it contains \<^verbatim>\<open>thinking\<close> or \<^verbatim>\<open>reasoning\<close>,
  and the provider follows the prefix rules in their fixed order. The identifier
  \<^verbatim>\<open>claude45sonnetthinking\<close> gives provider Anthropic, reasoning, and not pro.
\<close>

theorem create_model_info_inference:
  "is_pro (create_model_info s) = JBool (sublist ''pro'' (lower s) \<or> sublist ''alpha'' (lower s))
   \<and> supports_reasoning (create_model_info s) =
       (sublist ''thinking'' (lower s) \<or> sublist ''reasoning'' (lower s))
   \<and> provider (create_model_info s) = JStr
       (if prefix ''pplx'' (lower s) \<or> lower s = ''experimental'' then ''Perplexity''
        else if prefix ''gpt'' (lower s) then ''OpenAI''
        else if prefix ''claude'' (lower s) then ''Anthropic''
        else if prefix ''gemini'' (lower s) then ''Google''
        else if prefix ''grok'' (lower s) then ''xAI''
        else if prefix ''kimi'' (lower s) then ''Moonshot AI''
        else if prefix ''llama'' (lower s) then ''Meta''
        else if prefix ''mistral'' (lower s) then ''Mistral AI''
        else if prefix ''deepseek'' (lower s) then ''DeepSeek''
        else ''Unknown'')
   \<and> provider (create_model_info ''claude45sonnetthinking'') = JStr ''Anthropic''
   \<and> supports_reasoning (create_model_info ''claude45sonnetthinking'')
   \<and> is_pro (create_model_info ''claude45sonnetthinking'') = JBool False"
proof -
  have pro: "is_pro (create_model_info s) =
      JBool (sublist ''pro'' (lower s) \<or> sublist ''alpha'' (lower s))"
    by (simp only: create_model_info_def Let_def ModelInfo.simps contains_sublist)
  have reas: "supports_reasoning (create_model_info s) =
      (sublist ''thinking'' (lower s) \<or> sublist ''reasoning'' (lower s))"
    by (simp only: create_model_info_def Let_def ModelInfo.simps contains_sublist)
  have prov: "provider (create_model_info s) = JStr
       (if prefix ''pplx'' (lower s) \<or> lower s = ''experimental'' then ''Perplexity''
        else if prefix ''gpt'' (lower s) then ''OpenAI''
        else if prefix ''claude'' (lower s) then ''Anthropic''
        else if prefix ''gemini'' (lower s) then ''Google''
        else if prefix ''grok'' (lower s) then ''xAI''
        else if prefix ''kimi'' (lower s) then ''Moonshot AI''
        else if prefix ''llama'' (lower s) then ''Meta''
        else if prefix ''mistral'' (lower s) then ''Mistral AI''
        else if prefix ''deepseek'' (lower s) then ''DeepSeek''
        else ''Unknown'')"
    by (simp only: create_model_info_def infer_provider_def Let_def ModelInfo.simps
        startswith_prefix)
  have ex1: "provider (create_model_info ''claude45sonnetthinking'') = JStr ''Anthropic''"
    by code_simp
  have ex2: "supports_reasoning (create_model_info ''claude45sonnetthinking'')"
    by code_simp
  have ex3: "is_pro (create_model_info ''claude45sonnetthinking'') = JBool False"
    by code_simp
  from pro reas prov ex1 ex2 ex3 show ?thesis by blast
qed

text \<open>The theorem at \<^verbatim>\<open>pplx_alpha\<close>.\<close>

theorem create_model_info_inference_witness:
  "is_pro (create_model_info ''pplx_alpha'') = JBool True
   \<and> provider (create_model_info ''pplx_alpha'') = JStr ''Perplexity''
   \<and> \<not> supports_reasoning (create_model_info ''pplx_alpha'')"
proof -
  have a: "sublist ''alpha'' (lower ''pplx_alpha'')" by code_simp
  have b: "prefix ''pplx'' (lower ''pplx_alpha'')" by code_simp
  have c: "\<not> sublist ''thinking'' (lower ''pplx_alpha'')" by code_simp
  have d: "\<not> sublist ''reasoning'' (lower ''pplx_alpha'')" by code_simp
  from a b c d create_model_info_inference [of "''pplx_alpha''"] show ?thesis by simp
qed

section \<open>The fetcher: the fallback catalog\<close>

lemma get_default_models_length: "length get_default_models = 13"
  by (simp add: get_default_models_def)

lemma get_default_models_nonempty: "get_default_models \<noteq> []"
  by (simp add: get_default_models_def)

lemma fetch_page_nonempty: "fetch_page loads h w = Inr models \<Longrightarrow> models \<noteq> []"
  by (auto simp: fetch_page_def Let_def get_default_models_nonempty
      split: sum.splits option.splits if_splits)

lemma collect_ids_no_match:
  "\<forall>pattern \<in> set model_patterns. finditer pattern 0 html = [] \<Longrightarrow> collect_ids html = []"
  by (simp add: collect_ids_def model_patterns_def)

lemma iterate_Nil: "iterate h [] = []"
  by (simp add: iterate_def)

text \<open>
  C2. When the page has no matching script tag, none of the three patterns matches in it,
  and the settings endpoints give no model, \<^verbatim>\<open>fetch_models\<close> returns the fallback
  catalog: its thirteen entries, in their fixed order.
\<close>

theorem fallback_when_nothing_found:
  "w API_BASE_URL = Inr r \<Longrightarrow>
   next_data_search (text r) = None \<Longrightarrow>
   \<forall>pattern \<in> set model_patterns. finditer pattern 0 (text r) = [] \<Longrightarrow>
   fetch_from_settings w = [] \<Longrightarrow>
   returned (fetch_models loads h w) = get_default_models
   \<and> length (returned (fetch_models loads h w)) = 13
   \<and> map identifier (returned (fetch_models loads h w)) =
       [''pplx_pro'', ''pplx_alpha'', ''pplx_beta'', ''experimental'', ''gpt51'', ''gpt52'',
        ''gpt51_thinking'', ''claude45sonnet'', ''claude45sonnetthinking'', ''claudeopus45'',
        ''gemini30pro'', ''grok41nonreasoning'', ''kimik2thinking'']"
proof -
  assume w: "w API_BASE_URL = Inr r" and nd: "next_data_search (text r) = None"
    and nm: "\<forall>pattern \<in> set model_patterns. finditer pattern 0 (text r) = []"
    and st: "fetch_from_settings w = []"
  have ex: "extract_models_from_html loads h (text r) = Inr []"
    by (simp add: extract_models_from_html_def embedded_models_def nd
        collect_ids_no_match [OF nm] iterate_Nil)
  have "fetch_page loads h w = Inl e \<or> fetch_page loads h w = Inr get_default_models"
    if "raise_for_status r = Some e \<or> raise_for_status r = None" for e
    using that by (auto simp: fetch_page_def w ex st Let_def)
  then have ret: "returned (fetch_models loads h w) = get_default_models"
    by (cases "raise_for_status r") (auto simp: fetch_models_def fetch_page_def w ex st Let_def)
  have ids: "map identifier get_default_models =
       [''pplx_pro'', ''pplx_alpha'', ''pplx_beta'', ''experimental'', ''gpt51'', ''gpt52'',
        ''gpt51_thinking'', ''claude45sonnet'', ''claude45sonnetthinking'', ''claudeopus45'',
        ''gemini30pro'', ''grok41nonreasoning'', ''kimik2thinking'']"
    by (simp add: get_default_models_def mk_def)
  have len: "length get_default_models = 13"
    by (simp add: get_default_models_def)
  from ret ids len show ?thesis by simp
qed

text \<open>The theorem on a page with no script, every other URL answering 404.\<close>

theorem fallback_when_nothing_found_witness:
  "returned (fetch_models no_json (\<lambda>i. 0) empty_page) = get_default_models"
proof -
  let ?r = "\<lparr>status_code = 200, raise_for_status = None, text = ''<html></html>'',
                json = Inl JSONDecodeError\<rparr>"
  have a: "empty_page API_BASE_URL = Inr ?r"
    by (simp add: empty_page_def)
  have b: "next_data_search (text ?r) = None"
    by code_simp
  have c: "\<forall>pattern \<in> set model_patterns. finditer pattern 0 (text ?r) = []"
    unfolding model_patterns_def by code_simp
  have d: "fetch_from_settings empty_page = []"
    by code_simp
  from fallback_when_nothing_found [OF a b c d] show ?thesis by blast
qed

text \<open>
  C10. The list \<^verbatim>\<open>fetch_models\<close> returns is never empty: a list that would be empty is
  replaced by the fallback catalog, which has thirteen entries.
\<close>

theorem fetch_models_never_empty: "returned (fetch_models loads h w) \<noteq> []"
  by (auto simp: fetch_models_def get_default_models_nonempty
      split: sum.splits dest: fetch_page_nonempty)

text \<open>The theorem in the world where every request fails.\<close>

theorem fetch_models_never_empty_witness:
  "returned (fetch_models no_json (\<lambda>i. 0) offline) \<noteq> []"
  using fetch_models_never_empty [of no_json "\<lambda>i. 0" offline] by simp

section \<open>Pass A: the depth bound\<close>



lemma valid_nonempty: "is_valid_model_id s \<Longrightarrow> s \<noteq> []"
  by (simp add: is_valid_model_id_def split: if_splits)







section \<open>Pass A: which mappings give a model\<close>

lemma check_node_mono: "check_node v acc = Inr ms \<Longrightarrow> set acc \<subseteq> set ms"
  by (auto simp: check_node_def Let_def split: if_splits sum.splits json.splits)

lemma search_mono:
  "search_dict d n acc = Inr ms \<Longrightarrow> set acc \<subseteq> set ms"
  "search_items d1 n1 acc1 = Inr ms1 \<Longrightarrow> set acc1 \<subseteq> set ms1"
  "search_list xs n2 acc2 = Inr ms2 \<Longrightarrow> set acc2 \<subseteq> set ms2"
proof (induction d n acc and d1 n1 acc1 and xs n2 acc2 arbitrary: ms and ms1 and ms2
    rule: search_dict_search_items_search_list.induct)
  case (1 d depth models)
  then show ?case by (auto split: if_splits)
next
  case (3 key v rest depth models)
  from "3.prems" obtain m1 m2 where
    a: "check_node v models = Inr m1" and b: "search_dict v (depth + 1) m1 = Inr m2"
    and c: "search_items rest depth m2 = Inr ms1"
    by (auto split: sum.splits)
  from check_node_mono [OF a] "3.IH"(1) [OF a b] "3.IH"(2) [OF a b c]
  show ?case by blast
next
  case (4 key xs rest depth models)
  from "4.prems" obtain m1 where
    a: "search_list xs depth models = Inr m1" and b: "search_items rest depth m1 = Inr ms1"
    by (auto split: sum.splits)
  from "4.IH"(1) [OF a] "4.IH"(2) [OF a b] show ?case by blast
next
  case (7 v items depth models)
  from "7.prems" obtain m1 where
    a: "search_dict v (depth + 1) models = Inr m1" and b: "search_list items depth m1 = Inr ms2"
    by (auto split: sum.splits)
  from "7.IH"(1) [OF a] "7.IH"(2) [OF a b] show ?case by blast
qed auto

lemma search_items_value:
  "search_items d n acc = Inr ms \<Longrightarrow> (key, JObj v) \<in> set d \<Longrightarrow>
   \<exists>a1 a2 m2. check_node v a1 = Inr a2 \<and> search_dict v (Suc n) a2 = Inr m2 \<and> set m2 \<subseteq> set ms"
proof (induction d arbitrary: acc)
  case Nil
  then show ?case by simp
next
  case (Cons item rest)
  obtain k val where item: "item = (k, val)" by (cases item)
  show ?case
  proof (cases val)
    case (JObj v1)
    from Cons.prems(1) item JObj obtain m1 m2 where
      a: "check_node v1 acc = Inr m1" and b: "search_dict v1 (Suc n) m1 = Inr m2"
      and c: "search_items rest n m2 = Inr ms"
      by (auto split: sum.splits simp del: search_dict.simps)
    show ?thesis
    proof (cases "(key, JObj v) = item")
      case True
      with item JObj a b search_mono(2) [OF c] show ?thesis by blast
    next
      case False
      with Cons.prems(2) have "(key, JObj v) \<in> set rest" by simp
      from Cons.IH [OF c this] show ?thesis .
    qed
  next
    case (JArr xs)
    from Cons.prems(1) item JArr obtain m1 where
      c: "search_items rest n m1 = Inr ms"
      by (auto split: sum.splits)
    from Cons.prems(2) item JArr have "(key, JObj v) \<in> set rest" by auto
    from Cons.IH [OF c this] show ?thesis .
  qed (use Cons item in auto)
qed

lemma search_list_item:
  "search_list xs n acc = Inr ms \<Longrightarrow> JObj v \<in> set xs \<Longrightarrow>
   \<exists>a m. search_dict v (Suc n) a = Inr m \<and> set m \<subseteq> set ms"
proof (induction xs arbitrary: acc)
  case Nil
  then show ?case by simp
next
  case (Cons x xs)
  show ?case
  proof (cases x)
    case (JObj v1)
    from Cons.prems(1) JObj obtain m1 where
      b: "search_dict v1 (Suc n) acc = Inr m1" and c: "search_list xs n m1 = Inr ms"
      by (auto split: sum.splits simp del: search_dict.simps)
    show ?thesis
    proof (cases "v = v1")
      case True
      with b search_mono(3) [OF c] show ?thesis by blast
    next
      case False
      with Cons.prems(2) JObj have "JObj v \<in> set xs" by simp
      from Cons.IH [OF c this] show ?thesis .
    qed
  qed (use Cons in auto)
qed

lemma search_items_list:
  "search_items d n acc = Inr ms \<Longrightarrow> (key, JArr xs) \<in> set d \<Longrightarrow> JObj v \<in> set xs \<Longrightarrow>
   \<exists>a m. search_dict v (Suc n) a = Inr m \<and> set m \<subseteq> set ms"
proof (induction d arbitrary: acc)
  case Nil
  then show ?case by simp
next
  case (Cons item rest)
  obtain k val where item: "item = (k, val)" by (cases item)
  show ?case
  proof (cases val)
    case (JObj v1)
    from Cons.prems(1) item JObj obtain m2 where
      c: "search_items rest n m2 = Inr ms"
      by (auto split: sum.splits simp del: search_dict.simps)
    from Cons.prems(2) item JObj have "(key, JArr xs) \<in> set rest" by auto
    from Cons.IH [OF c this Cons.prems(3)] show ?thesis .
  next
    case (JArr ys)
    from Cons.prems(1) item JArr obtain m1 where
      a: "search_list ys n acc = Inr m1" and c: "search_items rest n m1 = Inr ms"
      by (auto split: sum.splits)
    show ?thesis
    proof (cases "(key, JArr xs) = item")
      case True
      with item JArr have "ys = xs" by simp
      with a search_list_item [OF _ Cons.prems(3)] obtain a0 m where
        "search_dict v (Suc n) a0 = Inr m" "set m \<subseteq> set m1" by blast
      with search_mono(2) [OF c] show ?thesis by blast
    next
      case False
      with Cons.prems(2) have "(key, JArr xs) \<in> set rest" by simp
      from Cons.IH [OF c this Cons.prems(3)] show ?thesis .
    qed
  qed (use Cons item in auto)
qed

lemma visited_searched:
  "visited root d n \<Longrightarrow> search_dict root 0 [] = Inr models \<Longrightarrow>
   \<exists>acc ms. search_dict d n acc = Inr ms \<and> set ms \<subseteq> set models"
proof (induction rule: visited.induct)
  case visited_root
  then show ?case by blast
next
  case (visited_value d n key v)
  then obtain acc ms where s: "search_dict d n acc = Inr ms" and sub: "set ms \<subseteq> set models"
    by blast
  from s visited_value.hyps(2) have "search_items d n acc = Inr ms" by simp
  from search_items_value [OF this visited_value.hyps(3)] sub show ?case by blast
next
  case (visited_item d n key xs v)
  then obtain acc ms where s: "search_dict d n acc = Inr ms" and sub: "set ms \<subseteq> set models"
    by blast
  from s visited_item.hyps(2) have "search_items d n acc = Inr ms" by simp
  from search_items_list [OF this visited_item.hyps(3) visited_item.hyps(4)] sub
  show ?case by blast
qed

lemma check_node_adds:
  "get v ''identifier'' = JStr s \<or> (\<not> truthy (get v ''identifier'') \<and> get v ''modelId'' = JStr s) \<Longrightarrow>
   is_valid_model_id s \<Longrightarrow>
   check_node v acc = Inr (acc @ [model_of_node s v])"
  by (auto simp: check_node_def node_model_id_def get_def has_key_def valid_nonempty
      split: option.splits)

text \<open>
  C7, amended. Let the walk of the embedded JSON raise no exception. For every mapping
  that is the value of a key of a mapping the walk searches at a depth of at most 10 (the
  root, or a mapping reached from it through values of keys and elements of lists): if
  its \<^verbatim>\<open>identifier\<close> field, or its \<^verbatim>\<open>modelId\<close> field when \<^verbatim>\<open>identifier\<close> is absent or
  falsy, is a string that passes validation, then a \<^verbatim>\<open>ModelInfo\<close> with that identifier
  is produced, its name, description, mode, provider and pro flag read from the mapping
  (the identifier, the empty string, \<^verbatim>\<open>copilot\<close>, \<^verbatim>\<open>unknown\<close> and False when absent),
  and \<^verbatim>\<open>supports_reasoning\<close> true exactly when the lower-cased identifier contains
  \<^verbatim>\<open>thinking\<close> or \<^verbatim>\<open>reasoning\<close>.
\<close>

theorem walk_synthesizes:
  assumes "parse_next_data (JObj root) = Inr models"
    and "visited root d n" and "n \<le> 10" and "(key, JObj v) \<in> set d"
    and "get v ''identifier'' = JStr s
         \<or> (\<not> truthy (get v ''identifier'') \<and> get v ''modelId'' = JStr s)"
    and "is_valid_model_id s"
  shows "\<exists>m \<in> set models.
           identifier m = s
           \<and> name m = get_default v ''name'' (JStr s)
           \<and> description m = get_default v ''description'' (JStr [])
           \<and> mode m = get_default v ''mode'' (JStr ''copilot'')
           \<and> provider m = get_default v ''provider'' (JStr ''unknown'')
           \<and> is_pro m = get_default v ''isPro'' (JBool False)
           \<and> supports_reasoning m =
               (sublist ''thinking'' (lower s) \<or> sublist ''reasoning'' (lower s))"
proof -
  from assms(1) have root: "search_dict root 0 [] = Inr models"
    by (simp add: parse_next_data_def)
  from visited_searched [OF assms(2) root] obtain acc ms where
    s: "search_dict d n acc = Inr ms" and sub: "set ms \<subseteq> set models" by blast
  from s assms(3) have "search_items d n acc = Inr ms" by simp
  from search_items_value [OF this assms(4)] obtain a1 a2 m2 where
    c: "check_node v a1 = Inr a2" and b: "search_dict v (Suc n) a2 = Inr m2"
    and sub2: "set m2 \<subseteq> set ms" by blast
  from c check_node_adds [OF assms(5) assms(6), of a1]
  have "model_of_node s v \<in> set a2" by auto
  with search_mono(1) [OF b] sub2 sub have "model_of_node s v \<in> set models" by blast
  then show ?thesis
    by (intro bexI [of _ "model_of_node s v"]) (simp_all add: model_of_node_def contains_sublist)
qed

text \<open>The theorem on the sample page state.\<close>

theorem walk_synthesizes_witness:
  "parse_next_data (JObj sample_data) = Inr [model_of_node ''gpt5_thinking'' sample_node]
   \<and> visited sample_data [(''primary'', JObj sample_node)] 2
   \<and> is_valid_model_id ''gpt5_thinking''
   \<and> is_pro (model_of_node ''gpt5_thinking'' sample_node) = JBool True
   \<and> supports_reasoning (model_of_node ''gpt5_thinking'' sample_node)"
proof -
  have p: "parse_next_data (JObj sample_data) = Inr [model_of_node ''gpt5_thinking'' sample_node]"
    by code_simp
  have "visited sample_data [(''models'', JArr [JObj [(''primary'', JObj sample_node)]])] (Suc 0)"
    by (rule visited_value [OF visited_root, where key = "''props''"]) (simp_all add: sample_data_def)
  then have "visited sample_data [(''primary'', JObj sample_node)] (Suc (Suc 0))"
    by (rule visited_item [where key = "''models''" and xs = "[JObj [(''primary'', JObj sample_node)]]"])
      simp_all
  then have v: "visited sample_data [(''primary'', JObj sample_node)] 2"
    by (simp add: numeral_2_eq_2)
  have valid: "is_valid_model_id ''gpt5_thinking''"
    by code_simp
  have g: "get sample_node ''identifier'' = JStr ''gpt5_thinking''
           \<or> (\<not> truthy (get sample_node ''identifier'')
               \<and> get sample_node ''modelId'' = JStr ''gpt5_thinking'')"
    by code_simp
  have th: "sublist ''thinking'' (lower ''gpt5_thinking'')"
    by code_simp
  have "(''primary'', JObj sample_node) \<in> set [(''primary'', JObj sample_node)]"
    by simp
  from walk_synthesizes [OF p v _ this g valid] th
  have "is_pro (model_of_node ''gpt5_thinking'' sample_node) = JBool True
        \<and> supports_reasoning (model_of_node ''gpt5_thinking'' sample_node)"
    by (simp add: sample_node_def get_default_def)
  with p v valid show ?thesis by blast
qed

text \<open>
  C7 as stated fails: a valid identifier in the root mapping, in a mapping that is an
  element of a list, or in \<^verbatim>\<open>modelId\<close> beside a non-empty \<^verbatim>\<open>identifier\<close> that is not
  valid, gives no model.
\<close>

theorem walk_misses_nodes:
  "is_valid_model_id ''claude''
   \<and> parse_next_data (JObj [(''identifier'', JStr ''claude'')]) = Inr []
   \<and> parse_next_data (JObj [(''models'', JArr [JObj [(''identifier'', JStr ''claude'')]])]) = Inr []
   \<and> parse_next_data
       (JObj [(''m'', JObj [(''identifier'', JStr ''default''), (''modelId'', JStr ''claude'')])])
       = Inr []"
  by code_simp

section \<open>The extractor: how the two passes are merged\<close>

lemma identifier_create_model_info: "identifier (create_model_info i) = i"
  by (simp add: create_model_info_def Let_def)

lemma fold_append_new:
  "fold (\<lambda>model_id models. if model_id \<notin> E then models @ [f model_id] else models) xs acc =
   acc @ map f (filter (\<lambda>i. i \<notin> E) xs)"
  by (induction xs arbitrary: acc) simp_all

lemma set_add_distinct: "distinct xs \<Longrightarrow> distinct (set_add x xs)"
  by (simp add: set_add_def)

lemma fold_matches_distinct:
  "distinct found \<Longrightarrow>
   distinct (fold (\<lambda>model_id found. if is_valid_model_id model_id then set_add model_id found
                                      else found) ids found)"
proof (induction ids arbitrary: found)
  case Nil
  then show ?case by simp
next
  case (Cons x ids)
  from Cons.prems have "distinct (if is_valid_model_id x then set_add x found else found)"
    by (simp add: set_add_def)
  from Cons.IH [OF this] show ?case by simp
qed

lemma collect_ids_distinct: "distinct (collect_ids html)"
  by (simp add: collect_ids_def model_patterns_def fold_matches_distinct)

lemma set_set_add: "set (set_add x xs) = insert x (set xs)"
  by (auto simp: set_add_def)

lemma fold_matches_set:
  "set (fold (\<lambda>model_id found. if P model_id then set_add model_id found else found) ids found) =
   set found \<union> {i \<in> set ids. P i}"
proof (induction ids arbitrary: found)
  case Nil
  show ?case by simp
next
  case (Cons x ids)
  show ?case
  proof (cases "P x")
    case True
    then show ?thesis by (simp add: Cons.IH set_set_add) blast
  next
    case False
    then show ?thesis by (simp add: Cons.IH) blast
  qed
qed

lemma collect_ids_set:
  "set (collect_ids html) =
     {i \<in> set (finditer (match_key_pattern ''identifier'') 0 html)
          \<union> set (finditer (match_key_pattern ''model'') 0 html)
          \<union> set (finditer match_model_id_pattern 0 html). is_valid_model_id i}"
  unfolding collect_ids_def model_patterns_def
  by (simp only: fold_simps fold_matches_set comp_apply list.set) blast

lemma collect_ids_valid: "i \<in> set (collect_ids html) \<Longrightarrow> is_valid_model_id i"
  by (simp add: collect_ids_set)

lemma iterate_set: "set (iterate h xs) = set xs"
  by (simp add: iterate_def)

lemma iterate_distinct: "distinct (iterate h xs) = distinct xs"
  by (simp add: iterate_def)

lemma extract_models_from_html_eq:
  "extract_models_from_html loads h html =
     (case embedded_models loads html of
        Inl e \<Rightarrow> Inl e
      | Inr as \<Rightarrow>
          Inr (as @ map create_model_info
                      (filter (\<lambda>i. i \<notin> set (map identifier as)) (iterate h (collect_ids html)))))"
  by (simp add: extract_models_from_html_def Let_def fold_append_new split: sum.splits)

lemma extract_models_from_html_parts:
  assumes "extract_models_from_html loads h html = Inr ms"
  shows "\<exists>as. embedded_models loads html = Inr as
           \<and> ms = as @ map create_model_info
                         (filter (\<lambda>i. i \<notin> set (map identifier as))
                                 (iterate h (collect_ids html)))"
proof (cases "embedded_models loads html")
  case (Inl e)
  with assms show ?thesis by (simp add: extract_models_from_html_eq)
next
  case (Inr as)
  with assms show ?thesis by (simp add: extract_models_from_html_eq)
qed

text \<open>
  C5, amended. The output of the extractor is the Pass A results, in their order and as
  Pass A produced them, followed by one inferred \<^verbatim>\<open>ModelInfo\<close> for each distinct valid
  Pass B identifier that no Pass A result carries, in the order the set yields them. The
  Pass B entries have pairwise different identifiers, none of them a Pass A identifier;
  so an identifier produced by both passes has in the output exactly the entries Pass A
  produced for it.
\<close>

theorem extract_merge:
  assumes "extract_models_from_html loads h html = Inr ms"
  shows "\<exists>as bs. embedded_models loads html = Inr as \<and> ms = as @ bs
           \<and> bs = map create_model_info
                    (filter (\<lambda>i. i \<notin> set (map identifier as)) (iterate h (collect_ids html)))
           \<and> distinct (map identifier bs)
           \<and> set (map identifier bs) = set (collect_ids html) - set (map identifier as)
           \<and> (\<forall>i \<in> set (map identifier as).
                 filter (\<lambda>m. identifier m = i) ms = filter (\<lambda>m. identifier m = i) as)"
proof (cases "embedded_models loads html")
  case (Inl e)
  with assms show ?thesis by (simp add: extract_models_from_html_eq)
next
  case (Inr as)
  define new where "new = filter (\<lambda>i. i \<notin> set (map identifier as)) (iterate h (collect_ids html))"
  define bs where "bs = map create_model_info new"
  from assms Inr have msbs: "ms = as @ bs"
    by (simp add: extract_models_from_html_eq bs_def new_def)
  have ids: "map identifier bs = new"
    unfolding bs_def by (induction new) (simp_all add: identifier_create_model_info)
  have d: "distinct new"
    unfolding new_def by (rule distinct_filter) (simp add: iterate_distinct collect_ids_distinct)
  have s: "set new = set (collect_ids html) - set (map identifier as)"
    unfolding new_def set_filter iterate_set by blast
  have f: "filter (\<lambda>m. identifier m = i) bs = []" if "i \<in> set (map identifier as)" for i
  proof -
    from that s have "i \<notin> set new" by blast
    then have "i \<notin> set (map identifier bs)" by (simp add: ids)
    then have "\<forall>m \<in> set bs. identifier m \<noteq> i" by auto
    then show ?thesis by (simp add: filter_empty_conv)
  qed
  show ?thesis
  proof (intro exI conjI)
    show "embedded_models loads html = Inr as" by fact
    show "ms = as @ bs" by fact
    show "bs = map create_model_info
            (filter (\<lambda>i. i \<notin> set (map identifier as)) (iterate h (collect_ids html)))"
      by (simp only: bs_def new_def)
    show "distinct (map identifier bs)" by (simp only: ids d)
    show "set (map identifier bs) = set (collect_ids html) - set (map identifier as)"
      by (simp only: ids s)
    show "\<forall>i \<in> set (map identifier as).
            filter (\<lambda>m. identifier m = i) ms = filter (\<lambda>m. identifier m = i) as"
    proof
      fix i
      assume "i \<in> set (map identifier as)"
      then have "filter (\<lambda>m. identifier m = i) bs = []" by (rule f)
      then show "filter (\<lambda>m. identifier m = i) ms = filter (\<lambda>m. identifier m = i) as"
        by (simp only: msbs filter_append append_Nil2)
    qed
  qed
qed

text \<open>The theorem on the page that defines \<^verbatim>\<open>claude\<close> in its JSON and names \<^verbatim>\<open>gpt5\<close>.\<close>

theorem extract_merge_witness:
  "extract_models_from_html merge_loads first_added merge_page =
     Inr [model_of_node ''claude'' [(''identifier'', JStr ''claude''), (''name'', JStr ''Claude'')],
          create_model_info ''gpt5'']
   \<and> collect_ids merge_page = [''claude'', ''gpt5'']
   \<and> filter (\<lambda>m. identifier m = ''claude'')
        [model_of_node ''claude'' [(''identifier'', JStr ''claude''), (''name'', JStr ''Claude'')],
         create_model_info ''gpt5''] =
       [model_of_node ''claude'' [(''identifier'', JStr ''claude''), (''name'', JStr ''Claude'')]]"
proof -
  let ?a = "model_of_node ''claude'' [(''identifier'', JStr ''claude''), (''name'', JStr ''Claude'')]"
  have e: "extract_models_from_html merge_loads first_added merge_page =
      Inr [?a, create_model_info ''gpt5'']"
    by code_simp
  have p: "embedded_models merge_loads merge_page = Inr [?a]"
    by code_simp
  have c: "collect_ids merge_page = [''claude'', ''gpt5'']"
    by code_simp
  have i: "identifier ?a = ''claude''"
    by (simp add: model_of_node_def)
  from extract_merge [OF e] p i
  have "filter (\<lambda>m. identifier m = ''claude'') [?a, create_model_info ''gpt5''] =
        filter (\<lambda>m. identifier m = ''claude'') [?a]"
    by auto
  with i have "filter (\<lambda>m. identifier m = ''claude'') [?a, create_model_info ''gpt5''] = [?a]"
    by simp
  with e c show ?thesis by blast
qed

text \<open>
  C5 as stated fails: the page of \<open>dup_page\<close> defines \<^verbatim>\<open>claude\<close> twice in its JSON,
  the patterns find \<^verbatim>\<open>claude\<close> in the same text, and the output has two entries with
  that identifier.
\<close>

theorem extract_keeps_duplicates:
  "next_data_search dup_page = Some dup_text
   \<and> collect_ids dup_page = [''claude'']
   \<and> extract_models_from_html dup_loads first_added dup_page =
       Inr [model_of_node ''claude'' [(''identifier'', JStr ''claude'')],
            model_of_node ''claude'' [(''identifier'', JStr ''claude''), (''name'', JStr ''Claude'')]]"
  by code_simp

section \<open>The settings endpoints: what each element gives\<close>

lemma add_models_eq:
  "add_models ms acc =
     (acc @ concat (map element_models (takeWhile (\<lambda>m. \<not> raises_on m) ms)),
      if \<exists>m \<in> set ms. raises_on m then Some AttributeError else None)"
proof (induction ms acc rule: add_models.induct)
  case (3 m rest models)
  show ?case
  proof (cases "map_of m ''identifier''")
    case None
    with 3 show ?thesis by (simp add: has_key_def)
  next
    case (Some x)
    with 3 show ?thesis
      by (cases x) (simp_all add: has_key_def get_def model_of_record_def get_default_def)
  qed
qed simp_all

lemma listed_Cons:
  "listed (key # keys) data =
     (case map_of data key of Some (JArr xs) \<Rightarrow> xs | other \<Rightarrow> []) @ listed keys data"
  by (simp add: listed_def)

lemma takeWhile_append_all:
  "\<forall>x \<in> set xs. P x \<Longrightarrow> takeWhile P (xs @ ys) = xs @ takeWhile P ys"
  by (induction xs) simp_all

lemma takeWhile_append_stop:
  "\<exists>x \<in> set xs. \<not> P x \<Longrightarrow> takeWhile P (xs @ ys) = takeWhile P xs"
  by (induction xs) auto

lemma scan_keys_eq:
  "scan_keys keys data acc =
     (acc @ concat (map element_models (takeWhile (\<lambda>m. \<not> raises_on m) (listed keys data))),
      if \<exists>m \<in> set (listed keys data). raises_on m then Some AttributeError else None)"
proof (induction keys arbitrary: acc)
  case Nil
  show ?case by (simp add: listed_def)
next
  case (Cons key keys)
  show ?case
  proof (cases "map_of data key")
    case None
    then show ?thesis by (simp add: has_key_def listed_Cons Cons.IH)
  next
    case (Some x)
    show ?thesis
    proof (cases x)
      case (JArr xs)
      show ?thesis
      proof (cases "\<exists>m \<in> set xs. raises_on m")
        case True
        then have "\<exists>m \<in> set xs. \<not> \<not> raises_on m" by simp
        from takeWhile_append_stop [of xs "\<lambda>m. \<not> raises_on m", OF this]
        have t: "takeWhile (\<lambda>m. \<not> raises_on m) (xs @ listed keys data) =
                 takeWhile (\<lambda>m. \<not> raises_on m) xs" .
        from True have b: "\<exists>m \<in> set (xs @ listed keys data). raises_on m" by auto
        from True b Some JArr show ?thesis
          by (simp add: has_key_def get_def listed_Cons add_models_eq t del: set_append)
      next
        case False
        then have "\<forall>m \<in> set xs. \<not> raises_on m" by simp
        from takeWhile_append_all [of xs "\<lambda>m. \<not> raises_on m", OF this]
        have t: "takeWhile (\<lambda>m. \<not> raises_on m) (xs @ listed keys data) =
                 xs @ takeWhile (\<lambda>m. \<not> raises_on m) (listed keys data)" .
        have u: "takeWhile (\<lambda>m. \<not> raises_on m) xs = xs"
          using False by (simp add: takeWhile_eq_all_conv)
        from False Some JArr show ?thesis
          by (auto simp: has_key_def get_def listed_Cons add_models_eq t u Cons.IH)
      qed
    qed (use Some in \<open>simp_all add: has_key_def get_def listed_Cons Cons.IH\<close>)
  qed
qed

lemma fetch_endpoint_eq:
  "fetch_endpoint w endpoint acc =
     acc @ concat (map element_models
                     (takeWhile (\<lambda>m. \<not> raises_on m) (endpoint_elements w endpoint)))"
proof (cases "w (API_BASE_URL @ endpoint)")
  case (Inl e)
  then show ?thesis by (simp add: fetch_endpoint_def endpoint_elements_def)
next
  case (Inr r)
  show ?thesis
  proof (cases "json r")
    case (Inl e)
    with Inr show ?thesis by (simp add: fetch_endpoint_def endpoint_elements_def)
  next
    case body: (Inr data)
    show ?thesis
      using Inr body
      by (cases data)
        (simp_all add: fetch_endpoint_def endpoint_elements_def scan_keys_eq model_keys_def)
  qed
qed

text \<open>
  C8, amended. The settings fetch takes the two endpoints in turn, and of each response
  the elements of the lists under \<^verbatim>\<open>models\<close>, \<^verbatim>\<open>availableModels\<close> and
  \<^verbatim>\<open>supportedModels\<close>, in that order, up to the first mapping whose \<^verbatim>\<open>identifier\<close>
  is not a string, where the response is dropped with the models it gave so far. Of the
  elements taken, a string is classified by metadata inference, and a mapping with an
  identifier gives a record with that identifier, its name, description and mode (the
  identifier, the empty string and \<^verbatim>\<open>copilot\<close> when absent), the provider inferred
  from the identifier, and \<^verbatim>\<open>is_pro\<close> and \<^verbatim>\<open>supports_reasoning\<close> False.
\<close>

theorem fetch_from_settings_elements:
  "fetch_from_settings w =
     concat (map (\<lambda>endpoint.
                    concat (map element_models
                              (takeWhile (\<lambda>m. \<not> raises_on m) (endpoint_elements w endpoint))))
                 [''/api/auth/session'', ''/api/user/settings''])"
  by (simp add: fetch_from_settings_def endpoints_def fetch_endpoint_eq)

text \<open>The theorem in the world of \<open>settings_world\<close>.\<close>

theorem fetch_from_settings_elements_witness:
  "fetch_from_settings settings_world =
     [create_model_info ''claude'',
      \<lparr>identifier = ''gpt5'', name = JStr ''gpt5'', description = JStr [],
       mode = JStr ''copilot'', provider = JStr ''OpenAI'', is_pro = JBool False,
       supports_reasoning = False\<rparr>]"
proof -
  have "concat (map (\<lambda>endpoint.
                    concat (map element_models
                              (takeWhile (\<lambda>m. \<not> raises_on m)
                                 (endpoint_elements settings_world endpoint))))
                 [''/api/auth/session'', ''/api/user/settings'']) =
     [create_model_info ''claude'',
      \<lparr>identifier = ''gpt5'', name = JStr ''gpt5'', description = JStr [],
       mode = JStr ''copilot'', provider = JStr ''OpenAI'', is_pro = JBool False,
       supports_reasoning = False\<rparr>]"
    by code_simp
  with fetch_from_settings_elements [of settings_world] show ?thesis by simp
qed

text \<open>
  C8 as stated fails: after a mapping whose identifier is a number, neither that mapping
  nor the string that follows it gives a model; and the provider and the pro flag that a
  mapping carries are not passed through.
\<close>

theorem settings_stop_at_bad_identifier:
  "fetch_from_settings numbered_world = []
   \<and> fetch_from_settings branded_world =
       [\<lparr>identifier = ''gpt5'', name = JStr ''gpt5'', description = JStr [],
         mode = JStr ''copilot'', provider = JStr ''OpenAI'', is_pro = JBool False,
         supports_reasoning = False\<rparr>]"
  by code_simp

section \<open>What is known of a returned model\<close>

lemma valid_length: "is_valid_model_id s \<Longrightarrow> 3 \<le> length s"
  by (simp add: is_valid_model_id_def split: if_splits)

lemma check_node_valid:
  assumes "check_node v acc = Inr ms" and "m \<in> set ms"
  shows "m \<in> set acc \<or> is_valid_model_id (identifier m)"
proof (cases "ms = acc")
  case True
  with assms(2) show ?thesis by simp
next
  case False
  with assms(1) obtain s where "ms = acc @ [model_of_node s v]" and "is_valid_model_id s"
    by (auto simp: check_node_def Let_def split: if_splits sum.splits json.splits)
  with assms(2) show ?thesis by (auto simp: model_of_node_def)
qed

lemma search_valid:
  "search_dict d n acc = Inr ms \<Longrightarrow> m \<in> set ms \<Longrightarrow>
     m \<in> set acc \<or> is_valid_model_id (identifier m)"
  "search_items d1 n1 acc1 = Inr ms1 \<Longrightarrow> m \<in> set ms1 \<Longrightarrow>
     m \<in> set acc1 \<or> is_valid_model_id (identifier m)"
  "search_list xs n2 acc2 = Inr ms2 \<Longrightarrow> m \<in> set ms2 \<Longrightarrow>
     m \<in> set acc2 \<or> is_valid_model_id (identifier m)"
proof (induction d n acc and d1 n1 acc1 and xs n2 acc2 arbitrary: ms and ms1 and ms2
    rule: search_dict_search_items_search_list.induct)
  case (1 d depth models)
  then show ?case by (auto split: if_splits)
next
  case (3 key v rest depth models)
  from "3.prems"(1) obtain m1 m2 where
    a: "check_node v models = Inr m1" and b: "search_dict v (depth + 1) m1 = Inr m2"
    and c: "search_items rest depth m2 = Inr ms1"
    by (auto split: sum.splits)
  from "3.IH"(2) [OF a b c "3.prems"(2)] "3.IH"(1) [OF a b] check_node_valid [OF a]
  show ?case by blast
next
  case (4 key xs rest depth models)
  from "4.prems"(1) obtain m1 where
    a: "search_list xs depth models = Inr m1" and b: "search_items rest depth m1 = Inr ms1"
    by (auto split: sum.splits)
  from "4.IH"(2) [OF a b "4.prems"(2)] "4.IH"(1) [OF a] show ?case by blast
next
  case (7 v items depth models)
  from "7.prems"(1) obtain m1 where
    a: "search_dict v (depth + 1) models = Inr m1" and b: "search_list items depth m1 = Inr ms2"
    by (auto split: sum.splits)
  from "7.IH"(2) [OF a b "7.prems"(2)] "7.IH"(1) [OF a] show ?case by blast
qed auto

lemma parse_next_data_valid:
  "parse_next_data data = Inr ms \<Longrightarrow> m \<in> set ms \<Longrightarrow> is_valid_model_id (identifier m)"
  using search_valid(1) [of _ 0 "[]" ms m]
  by (cases data) (auto simp: parse_next_data_def)

lemma embedded_models_valid:
  "embedded_models loads html = Inr ms \<Longrightarrow> m \<in> set ms \<Longrightarrow> is_valid_model_id (identifier m)"
  by (auto simp: embedded_models_def split: option.splits sum.splits if_splits
      dest: parse_next_data_valid)

lemma title_from_nonempty: "s \<noteq> [] \<Longrightarrow> title_from prev s \<noteq> []"
  by (cases s) (simp_all add: title_char_def Let_def)

lemma name_mappings_nonempty: "map_of name_mappings i = Some n \<Longrightarrow> n \<noteq> []"
  by (auto simp: name_mappings_def split: if_splits)

lemma infer_model_name_nonempty: "i \<noteq> [] \<Longrightarrow> infer_model_name i \<noteq> []"
proof (cases "map_of name_mappings i")
  case None
  assume "i \<noteq> []"
  then have "replace_char (CHR ''_'') (CHR '' '') i \<noteq> []"
    by (simp add: replace_char_def)
  then have "title (replace_char (CHR ''_'') (CHR '' '') i) \<noteq> []"
    unfolding title_def by (rule title_from_nonempty)
  with None show ?thesis by (simp add: infer_model_name_def)
next
  case (Some n)
  with name_mappings_nonempty [OF Some] show ?thesis by (simp add: infer_model_name_def)
qed

lemma default_models_checked:
  "m \<in> set get_default_models \<Longrightarrow>
   3 \<le> length (identifier m) \<and> (\<exists>n. name m = JStr n \<and> n \<noteq> [])"
  by (auto simp: get_default_models_def mk_def)

lemma new_models_checked:
  assumes "m \<in> set (map create_model_info
                        (filter (\<lambda>i. i \<notin> E) (iterate h (collect_ids html))))"
  shows "3 \<le> length (identifier m) \<and> (\<exists>n. name m = JStr n \<and> n \<noteq> [])"
proof -
  from assms obtain i where m: "m = create_model_info i" and "i \<in> set (iterate h (collect_ids html))"
    by auto
  then have "i \<in> set (collect_ids html)" by (simp add: iterate_set)
  then have v: "is_valid_model_id i" by (rule collect_ids_valid)
  from valid_length [OF v] have l: "3 \<le> length (identifier m)"
    by (simp add: m identifier_create_model_info)
  from valid_nonempty [OF v] have "infer_model_name i \<noteq> []"
    by (rule infer_model_name_nonempty)
  then have "\<exists>n. name m = JStr n \<and> n \<noteq> []"
    by (simp add: m create_model_info_def Let_def)
  with l show ?thesis by blast
qed

text \<open>
  C4, amended. Every \<^verbatim>\<open>ModelInfo\<close> that \<^verbatim>\<open>fetch_models\<close> returns from the embedded
  JSON pass, the free-text pass or the fallback catalog has an identifier of at least
  three characters; those of the free-text pass and of the fallback catalog also have a
  name that is a non-empty string. A model of the embedded JSON pass carries the name
  its mapping gives, and the models of the settings endpoints are returned as the
  endpoints list them: for these nothing is checked.
\<close>

theorem returned_models_checked:
  assumes "m \<in> set (returned (fetch_models loads h w))"
  shows "(\<exists>r. w API_BASE_URL = Inr r \<and> extract_models_from_html loads h (text r) = Inr []
              \<and> m \<in> set (fetch_from_settings w))
         \<or> (3 \<le> length (identifier m)
             \<and> ((\<exists>n. name m = JStr n \<and> n \<noteq> [])
                 \<or> (\<exists>r as. w API_BASE_URL = Inr r \<and> embedded_models loads (text r) = Inr as
                           \<and> m \<in> set as)))"
proof (cases "fetch_page loads h w")
  case (Inl e)
  with assms have "m \<in> set get_default_models" by (simp add: fetch_models_def)
  from default_models_checked [OF this] show ?thesis by blast
next
  case (Inr models)
  with assms have mm: "m \<in> set models" by (simp add: fetch_models_def)
  from Inr obtain r ms0 where r: "w API_BASE_URL = Inr r"
    and ex: "extract_models_from_html loads h (text r) = Inr ms0"
    and models: "models = (if ms0 = []
                           then (if fetch_from_settings w = [] then get_default_models
                                 else fetch_from_settings w)
                           else ms0)"
    by (auto simp: fetch_page_def Let_def split: sum.splits option.splits)
  show ?thesis
  proof (cases "ms0 = []")
    case True
    show ?thesis
    proof (cases "fetch_from_settings w = []")
      case True
      with \<open>ms0 = []\<close> models mm have "m \<in> set get_default_models" by simp
      from default_models_checked [OF this] show ?thesis by blast
    next
      case False
      with \<open>ms0 = []\<close> models mm have "m \<in> set (fetch_from_settings w)" by simp
      with r ex \<open>ms0 = []\<close> show ?thesis by blast
    qed
  next
    case False
    with models mm have m0: "m \<in> set ms0" by simp
    from extract_models_from_html_parts [OF ex] obtain as where
      as: "embedded_models loads (text r) = Inr as"
      and ms0': "ms0 = as @ map create_model_info
                 (filter (\<lambda>i. i \<notin> set (map identifier as)) (iterate h (collect_ids (text r))))"
      by blast
    define bs where "bs = map create_model_info
                 (filter (\<lambda>i. i \<notin> set (map identifier as)) (iterate h (collect_ids (text r))))"
    from ms0' have ms0: "ms0 = as @ bs" by (simp add: bs_def)
    note bs = bs_def
    from m0 ms0 consider "m \<in> set as" | "m \<in> set bs" by auto
    then show ?thesis
    proof cases
      case 1
      from valid_length [OF embedded_models_valid [OF as 1]] r as 1 show ?thesis by blast
    next
      case 2
      with bs have "m \<in> set (map create_model_info
                 (filter (\<lambda>i. i \<notin> set (map identifier as)) (iterate h (collect_ids (text r)))))"
        by simp
      from new_models_checked [OF this] show ?thesis by blast
    qed
  qed
qed

text \<open>The theorem for the first model returned when every request fails.\<close>

theorem returned_models_checked_witness:
  "mk ''pplx_pro'' ''Perplexity Pro (Auto)'' ''Auto-selects the best model'' ''copilot''
      ''Perplexity'' True False
     \<in> set (returned (fetch_models no_json first_added offline))
   \<and> 3 \<le> length (identifier
        (mk ''pplx_pro'' ''Perplexity Pro (Auto)'' ''Auto-selects the best model'' ''copilot''
           ''Perplexity'' True False))"
proof -
  let ?m = "mk ''pplx_pro'' ''Perplexity Pro (Auto)'' ''Auto-selects the best model''
              ''copilot'' ''Perplexity'' True False"
  have a: "?m \<in> set (returned (fetch_models no_json first_added offline))"
    by (simp add: fetch_models_def fetch_page_def offline_def get_default_models_def)
  have b: "offline API_BASE_URL = Inl (LibraryError ''ConnectionError'')"
    by (simp add: offline_def)
  from returned_models_checked [OF a] b have "3 \<le> length (identifier ?m)" by simp
  with a show ?thesis by blast
qed

text \<open>
  C4 as stated fails: a settings endpoint that lists the empty string gives a model with
  an empty identifier and an empty name, and an embedded mapping whose name is the empty
  string gives a model with that name.
\<close>

theorem returned_models_unchecked:
  "returned (fetch_models no_json first_added blank_world) = [create_model_info []]
   \<and> identifier (create_model_info []) = []
   \<and> name (create_model_info []) = JStr []
   \<and> returned (fetch_models unnamed_loads first_added unnamed_world) =
       [model_of_node ''claude'' [(''identifier'', JStr ''claude''), (''name'', JStr [])]]
   \<and> name (model_of_node ''claude'' [(''identifier'', JStr ''claude''), (''name'', JStr [])])
       = JStr []"
  by code_simp

section \<open>The fetcher: which exceptions reach the top level\<close>

lemma extract_models_from_html_raises:
  "extract_models_from_html loads h html = Inl e \<longleftrightarrow> embedded_models loads html = Inl e"
  by (cases "embedded_models loads html") (simp_all add: extract_models_from_html_def Let_def)

lemma embedded_models_raises:
  "embedded_models loads html = Inl e \<longleftrightarrow>
     (\<exists>content. next_data_search html = Some content
        \<and> ((loads content = Inl e \<and> e \<noteq> JSONDecodeError)
            \<or> (\<exists>data. loads content = Inr data \<and> parse_next_data data = Inl e)))"
proof (cases "next_data_search html")
  case None
  then show ?thesis by (simp add: embedded_models_def)
next
  case (Some content)
  show ?thesis
  proof (cases "loads content")
    case (Inl x)
    with Some show ?thesis by (auto simp: embedded_models_def)
  next
    case (Inr data)
    with Some show ?thesis by (simp add: embedded_models_def)
  qed
qed

lemma fetch_page_raises: "fetch_page loads h w = Inl e \<longleftrightarrow> escaping loads w = Some e"
proof (cases "w API_BASE_URL")
  case (Inl x)
  then show ?thesis by (simp add: fetch_page_def escaping_def)
next
  case (Inr r)
  show ?thesis
  proof (cases "raise_for_status r")
    case (Some x)
    with Inr show ?thesis by (simp add: fetch_page_def escaping_def)
  next
    case None
    have "fetch_page loads h w = Inl e \<longleftrightarrow> embedded_models loads (text r) = Inl e"
      using Inr None extract_models_from_html_raises [of loads h "text r" e]
      by (cases "extract_models_from_html loads h (text r)") (simp_all add: fetch_page_def Let_def)
    also have "\<dots> \<longleftrightarrow> escaping loads w = Some e"
      unfolding embedded_models_raises using Inr None
      by (auto simp: escaping_def split: option.splits sum.splits)
    finally show ?thesis .
  qed
qed

text \<open>
  C1, amended. An exception of the page request, of \<^verbatim>\<open>raise_for_status\<close>, of the
  decoder of the embedded JSON other than a \<^verbatim>\<open>JSONDecodeError\<close>, or of the walk of the
  decoded data is caught at the top level of \<^verbatim>\<open>fetch_models\<close>: one line goes to the
  error stream and the fallback catalog is returned. When none of these is raised nothing
  is written and the list of the \<^verbatim>\<open>try\<close> is returned; the exceptions of the settings
  endpoints have no part in this. A \<^verbatim>\<open>JSONDecodeError\<close> of the embedded JSON is absorbed
  where it is raised: nothing is written, and the extraction gives the models of the
  free-text pass. In every case the caller receives a list.
\<close>

theorem fetch_models_top_level:
  "(escaping loads w = Some e \<longrightarrow>
      fetch_models loads h w =
        \<lparr>returned = get_default_models, models_attr = get_default_models, stderr = [e]\<rparr>)
   \<and> (escaping loads w = None \<longrightarrow>
        stderr (fetch_models loads h w) = []
        \<and> fetch_page loads h w = Inr (returned (fetch_models loads h w)))
   \<and> (w API_BASE_URL = Inr r \<and> raise_for_status r = None
        \<and> next_data_search (text r) = Some content \<and> loads content = Inl JSONDecodeError \<longrightarrow>
        stderr (fetch_models loads h w) = []
        \<and> extract_models_from_html loads h (text r) =
            Inr (map create_model_info (iterate h (collect_ids (text r)))))"
proof -
  have a: "escaping loads w = Some e \<longrightarrow>
      fetch_models loads h w =
        \<lparr>returned = get_default_models, models_attr = get_default_models, stderr = [e]\<rparr>"
  proof
    assume "escaping loads w = Some e"
    then have "fetch_page loads h w = Inl e" by (simp only: fetch_page_raises)
    then show "fetch_models loads h w =
        \<lparr>returned = get_default_models, models_attr = get_default_models, stderr = [e]\<rparr>"
      by (simp add: fetch_models_def)
  qed
  have none: "\<exists>ms. fetch_page loads h w = Inr ms" if "escaping loads w = None"
  proof (cases "fetch_page loads h w")
    case (Inl x)
    with that fetch_page_raises [of loads h w x] show ?thesis by simp
  next
    case (Inr ms)
    then show ?thesis by blast
  qed
  have b: "escaping loads w = None \<longrightarrow>
        stderr (fetch_models loads h w) = []
        \<and> fetch_page loads h w = Inr (returned (fetch_models loads h w))"
    using none by (auto simp: fetch_models_def)
  have c: "w API_BASE_URL = Inr r \<and> raise_for_status r = None
        \<and> next_data_search (text r) = Some content \<and> loads content = Inl JSONDecodeError \<longrightarrow>
        stderr (fetch_models loads h w) = []
        \<and> extract_models_from_html loads h (text r) =
            Inr (map create_model_info (iterate h (collect_ids (text r))))"
  proof
    assume h: "w API_BASE_URL = Inr r \<and> raise_for_status r = None
        \<and> next_data_search (text r) = Some content \<and> loads content = Inl JSONDecodeError"
    then have "escaping loads w = None" by (simp add: escaping_def)
    with b have s: "stderr (fetch_models loads h w) = []" by blast
    from h have "embedded_models loads (text r) = Inr []" by (simp add: embedded_models_def)
    then have "extract_models_from_html loads h (text r) =
            Inr (map create_model_info (iterate h (collect_ids (text r))))"
      by (simp add: extract_models_from_html_eq)
    with s show "stderr (fetch_models loads h w) = []
        \<and> extract_models_from_html loads h (text r) =
            Inr (map create_model_info (iterate h (collect_ids (text r))))" by blast
  qed
  from a b c show ?thesis by blast
qed

text \<open>
  The theorem on a page whose embedded identifier is a number, where the walk raises
  \<^verbatim>\<open>TypeError\<close>, and on a page whose embedded JSON is malformed.
\<close>

theorem fetch_models_top_level_witness:
  "escaping numeric_loads numeric_world = Some TypeError
   \<and> fetch_models numeric_loads first_added numeric_world =
       \<lparr>returned = get_default_models, models_attr = get_default_models, stderr = [TypeError]\<rparr>
   \<and> escaping no_json malformed_world = None
   \<and> stderr (fetch_models no_json first_added malformed_world) = []"
proof -
  have a: "escaping numeric_loads numeric_world = Some TypeError"
    by code_simp
  have b: "escaping no_json malformed_world = None"
    by code_simp
  from a b fetch_models_top_level [of numeric_loads numeric_world TypeError first_added]
    fetch_models_top_level [of no_json malformed_world _ first_added]
  show ?thesis by blast
qed

text \<open>
  C1 as stated fails: a \<^verbatim>\<open>JSONDecodeError\<close> raised while parsing the embedded JSON, and
  a transport error raised while fetching a settings endpoint, leave no line on the error
  stream, and the list returned is not the fallback catalog.
\<close>

theorem fetch_models_silent_exceptions:
  "next_data_search malformed_page = Some ''{oops''
   \<and> no_json ''{oops'' = Inl JSONDecodeError
   \<and> fetch_models no_json first_added malformed_world =
       \<lparr>returned = [create_model_info ''claude45''],
        models_attr = [create_model_info ''claude45''], stderr = []\<rparr>
   \<and> flaky_world (API_BASE_URL @ ''/api/auth/session'') = Inl (LibraryError ''ConnectionError'')
   \<and> fetch_models no_json first_added flaky_world =
       \<lparr>returned = [create_model_info ''claude''],
        models_attr = [create_model_info ''claude''], stderr = []\<rparr>"
  by code_simp

end
